theory Spec2Isabelle
  imports Main
begin

unbundle bit_operations_syntax

section \<open>Package errors: the err struct and its JSON form\<close>

text \<open>
  The struct \<^verbatim>\<open>err\<close> of package errors. \<^verbatim>\<open>ICode\<close> is an int32 that the code only
  stores and compares. \<^verbatim>\<open>ICause\<close> is a Go \<^verbatim>\<open>error\<close>, which may be nil; only its
  \<^verbatim>\<open>Error()\<close> text is ever read, so the field holds that text.
\<close>

record err =
  ICode :: int
  IKey :: string
  ICause :: "string option"
  InternalMsg :: string
  InternalCaller :: string
  level :: int

text \<open>\<^verbatim>\<open>strings.HasPrefix(s, prefix)\<close>: s is at least as long as prefix and starts with it.\<close>

definition HasPrefix :: "string \<Rightarrow> string \<Rightarrow> bool" where
  "HasPrefix s prefix = (length prefix \<le> length s \<and> take (length prefix) s = prefix)"

text \<open>The values stored in the \<^verbatim>\<open>map[string]interface{}\<close> that MarshalJSON builds.\<close>

datatype json_val = JInt int | JStr string

text \<open>
  \<^verbatim>\<open>(e *err) MarshalJSON\<close> builds the map \<^verbatim>\<open>m\<close> and hands it to \<^verbatim>\<open>json.Marshal\<close>, which
  writes one member per key. The model returns the map. The second operand of the
  caller test applies HasPrefix to the string literal \<^verbatim>\<open>"e.InternalCaller"\<close>, as the
  source does.
\<close>

definition MarshalJSON :: "err \<Rightarrow> (string \<rightharpoonup> json_val)" where
  "MarshalJSON e =
    (let m = [''code'' \<mapsto> JInt (ICode e), ''key'' \<mapsto> JStr (IKey e),
              ''message'' \<mapsto> JStr (InternalMsg e)];
         m = (case ICause e of None \<Rightarrow> m | Some c \<Rightarrow> m(''cause'' \<mapsto> JStr c));
         m = (if InternalCaller e \<noteq> '''' \<and> \<not> HasPrefix ''e.InternalCaller'' ''unknown:''
              then m(''caller'' \<mapsto> JStr (InternalCaller e)) else m)
     in m)"

section \<open>Package datastore: IndexConnection\<close>

text \<open>
  The \<^verbatim>\<open>Context\<close> an IndexConnection reports to is an interface with the three methods
  Fatal, Error and Warning. It is modelled by what it has received, in order.
\<close>

record Context =
  fatals :: "err list"
  errors :: "err list"
  warnings :: "err list"

record IndexConnection =
  ctx :: Context
  timeout :: bool
  primary :: bool

text \<open>\<^verbatim>\<open>NewIndexConnection\<close>: both flags start at Go's zero value, false.\<close>

definition NewIndexConnection :: "Context \<Rightarrow> IndexConnection" where
  "NewIndexConnection c = \<lparr>ctx = c, timeout = False, primary = False\<rparr>"

definition SetPrimary :: "IndexConnection \<Rightarrow> IndexConnection" where
  "SetPrimary this = this\<lparr>primary := True\<rparr>"

definition Timeout :: "IndexConnection \<Rightarrow> bool" where
  "Timeout this = timeout this"

definition context_Error :: "err \<Rightarrow> Context \<Rightarrow> Context" where
  "context_Error e c = c\<lparr>errors := errors c @ [e]\<rparr>"

text \<open>
  \<^verbatim>\<open>(this *IndexConnection) Error(err)\<close>. The constant \<^verbatim>\<open>errors.INDEX_SCAN_TIMEOUT\<close> is
  declared outside the sources at hand, so it is the first argument.
\<close>

definition conn_Error :: "int \<Rightarrow> err \<Rightarrow> IndexConnection \<Rightarrow> IndexConnection" where
  "conn_Error INDEX_SCAN_TIMEOUT e this =
    (if primary this \<and> ICode e = INDEX_SCAN_TIMEOUT
     then this\<lparr>timeout := True\<rparr>
     else this\<lparr>ctx := context_Error e (ctx this)\<rparr>)"

section \<open>Package plan: spans\<close>

text \<open>
  \<^verbatim>\<open>datastore.Inclusion\<close>: an int used as a two-bit mask.
\<close>

definition NEITHER :: int where "NEITHER = 0"
definition LOW :: int where "LOW = 1"
definition HIGH :: int where "HIGH = 2"
definition BOTH :: int where "BOTH = LOW OR HIGH"

text \<open>
  A span holds a range: two sequences of expressions and the inclusion mask. The type of
  expressions is the parameter \<open>'e\<close>. The planner reads and writes the fields
  \<^verbatim>\<open>Range.Low\<close>, \<^verbatim>\<open>Range.High\<close> and \<^verbatim>\<open>Range.Inclusion\<close> only.
\<close>

record 'e Range =
  Low :: "'e list"
  High :: "'e list"
  Inclusion :: int

record 'e Span =
  Range :: "'e Range"

text \<open>
  Modelled from the spec: the package variable \<^verbatim>\<open>_FULL_SPANS\<close> is declared in a file
  that is not among the sources. The spec gives FULL_SPAN as empty low, empty high,
  inclusion BOTH, and \<^verbatim>\<open>_FULL_SPANS\<close> as the singleton holding it.
\<close>

definition FULL_SPAN :: "'e Span" where
  "FULL_SPAN = \<lparr>Range = \<lparr>Low = [], High = [], Inclusion = BOTH\<rparr>\<rparr>"

text \<open>
  \<^verbatim>\<open>plan.Spans\<close> is a slice of pointers to spans, and SargFor compares pointers with
  \<^verbatim>\<open>_FULL_SPANS[0]\<close>. A pointer is therefore either that one object or some other
  span object, given by its content; no other identity is ever tested.
\<close>

datatype 'e span_ptr = FULL_SPANS_0 | Obj "'e Span"

fun deref :: "'e span_ptr \<Rightarrow> 'e Span" where
  "deref FULL_SPANS_0 = FULL_SPAN"
| "deref (Obj s) = s"

type_synonym 'e Spans = "'e span_ptr list"

text \<open>
  Modelled from the spec: \<^verbatim>\<open>_FULL_SPANS\<close>, the singleton whose only element points to the
  full span.
\<close>

definition FULL_SPANS :: "'e Spans" where
  "FULL_SPANS = [FULL_SPANS_0]"

text \<open>Go's \<^verbatim>\<open>len\<close> on a slice that may be nil (\<open>None\<close>).\<close>

fun len :: "'a list option \<Rightarrow> nat" where
  "len None = 0"
| "len (Some xs) = length xs"

section \<open>Package planner: SargFor\<close>

definition missing_high :: "'e span_ptr \<Rightarrow> bool" where
  "missing_high prev = (length (High (Range (deref prev))) = 0)"

definition carries_low :: "'e span_ptr \<Rightarrow> bool" where
  "carries_low next = (length (Low (Range (deref next))) > 0)"

definition is_full_ptr :: "'e span_ptr \<Rightarrow> bool" where
  "is_full_ptr prev = (prev = FULL_SPANS_0)"

definition unbounded :: "'e span_ptr \<Rightarrow> bool" where
  "unbounded s = (length (Low (Range (deref s))) = 0 \<and> length (High (Range (deref s))) = 0)"

text \<open>
  The body of the innermost loop of SargFor for one \<^verbatim>\<open>next\<close>: \<^verbatim>\<open>pre := prev.Copy()\<close>,
  the two appends, and the flag \<^verbatim>\<open>add\<close>. \<open>None\<close> stands for \<^verbatim>\<open>add == false\<close>.
\<close>

definition compose :: "'e Span \<Rightarrow> 'e Span \<Rightarrow> 'e Span option" where
  "compose prev next =
    (let pre = prev; add = False;
         (pre, add) =
           (if length (Low (Range pre)) > 0 \<and> length (Low (Range next)) > 0
            then (pre\<lparr>Range := (Range pre)\<lparr>
                    Low := Low (Range pre) @ Low (Range next),
                    Inclusion := ((LOW AND Inclusion (Range pre)) AND Inclusion (Range next))
                                 OR (HIGH AND Inclusion (Range pre))\<rparr>\<rparr>, True)
            else (pre, add));
         (pre, add) =
           (if length (High (Range pre)) > 0 \<and> length (High (Range next)) > 0
            then (pre\<lparr>Range := (Range pre)\<lparr>
                    High := High (Range pre) @ High (Range next),
                    Inclusion := ((HIGH AND Inclusion (Range pre)) AND Inclusion (Range next))
                                 OR (LOW AND Inclusion (Range pre))\<rparr>\<rparr>, True)
            else (pre, add))
     in if add then Some pre else None)"

text \<open>The loop that fills \<^verbatim>\<open>pn\<close>; it breaks at the first \<^verbatim>\<open>next\<close> that adds nothing.\<close>

fun compose_row :: "'e Span \<Rightarrow> 'e Spans \<Rightarrow> 'e Spans" where
  "compose_row prev [] = []"
| "compose_row prev (next # ns) =
    (case compose prev (deref next) of
       None \<Rightarrow> []
     | Some pre \<Rightarrow> Obj pre # compose_row prev ns)"

text \<open>One pass of the loop labelled \<^verbatim>\<open>prevs\<close>: what is appended to \<^verbatim>\<open>sp\<close> for \<^verbatim>\<open>prev\<close>.\<close>

definition cross_prev :: "'e Spans \<Rightarrow> 'e span_ptr \<Rightarrow> 'e Spans" where
  "cross_prev ns prev =
    (if unbounded prev then [prev]
     else if length ns > 16 then [prev]
     else if list_ex (\<lambda>next. is_full_ptr next \<or> unbounded next) ns then [prev]
     else (let pn = compose_row (deref prev) ns
           in if length pn = length ns then pn else [prev]))"

text \<open>
  One pass of the loop labelled \<^verbatim>\<open>keys\<close>, for the key at index \<open>i\<close>. The visitor
  \<^verbatim>\<open>s\<close> built by \<^verbatim>\<open>newSarg(pred)\<close> is outside the sources; \<open>accept mh key\<close> is what
  \<^verbatim>\<open>key.Accept(s)\<close> returns while the visitor's flag is \<open>mh\<close>: a result that may be
  nil and an error that may be nil. The state is the flag and \<^verbatim>\<open>ns\<close>. \<open>Inl\<close> is a
  return from SargFor, \<open>Inr\<close> the state for the next key to the left.
\<close>

definition sarg_key ::
  "(bool \<Rightarrow> 'e \<Rightarrow> 'e Spans option \<times> 'x option) \<Rightarrow> 'e \<Rightarrow> nat \<Rightarrow> bool \<times> 'e Spans option
     \<Rightarrow> ('e Spans option \<times> 'x option) + (bool \<times> 'e Spans option)" where
  "sarg_key accept key i st =
    (case st of (mh, ns) \<Rightarrow>
      (case accept mh key of
         (None, err) \<Rightarrow> Inl (None, err)
       | (Some rs, Some e) \<Rightarrow> Inl (None, Some e)
       | (Some rs, None) \<Rightarrow>
          if length rs = 0 then Inr (mh, None)
          else
            (let mh = (if i > 0 then list_ex missing_high rs else mh)
             in case ns of
                  None \<Rightarrow> Inr (mh, Some rs)
                | Some nsl \<Rightarrow>
                    if list_ex is_full_ptr rs then Inr (mh, Some [FULL_SPANS_0])
                    else Inr (mh, Some (concat (map (cross_prev nsl) rs))))))"

text \<open>The loop over \<open>i = k - 1, ..., 0\<close>.\<close>

fun sarg_loop ::
  "(bool \<Rightarrow> 'e \<Rightarrow> 'e Spans option \<times> 'x option) \<Rightarrow> 'e list \<Rightarrow> nat \<Rightarrow> bool \<times> 'e Spans option
     \<Rightarrow> ('e Spans option \<times> 'x option) + (bool \<times> 'e Spans option)" where
  "sarg_loop accept sargKeys 0 st = Inr st"
| "sarg_loop accept sargKeys (Suc i) st =
    (case sarg_key accept (sargKeys ! i) i st of
       Inl ret \<Rightarrow> Inl ret
     | Inr st' \<Rightarrow> sarg_loop accept sargKeys i st')"

text \<open>The state before the first key: \<^verbatim>\<open>s.SetMissingHigh(n < total)\<close> and \<^verbatim>\<open>var ns plan.Spans\<close>.\<close>

definition sarg_init :: "'e list \<Rightarrow> int \<Rightarrow> bool \<times> 'e Spans option" where
  "sarg_init sargKeys tot = (int (length sargKeys) < tot, None)"

definition SargFor ::
  "(bool \<Rightarrow> 'e \<Rightarrow> 'e Spans option \<times> 'x option) \<Rightarrow> 'e list \<Rightarrow> int
     \<Rightarrow> 'e Spans option \<times> 'x option" where
  "SargFor accept sargKeys tot =
    (case sarg_loop accept sargKeys (length sargKeys) (sarg_init sargKeys tot) of
       Inl ret \<Rightarrow> ret
     | Inr (mh, ns) \<Rightarrow>
         if len ns = 0 \<or> len ns > 256 then (Some FULL_SPANS, None) else (ns, None))"

section \<open>Package planner: constrainSpan\<close>

text \<open>
  \<^verbatim>\<open>constrainSpan(span1, span2)\<close> writes to \<^verbatim>\<open>*span1\<close>; the model returns the new content
  of \<^verbatim>\<open>span1\<close>. Of the expression package the sources hold the interface only, and the
  value package is outside them:
  \<open>Value\<close> is \<^verbatim>\<open>Expression.Value()\<close>, the static value of an expression or nil, and
  \<open>Collate v w\<close> is \<^verbatim>\<open>v.Collate(w)\<close>, whose argument may be nil in the high-bound
  test. Index 0 is read only after the length test, as in the source.
\<close>

definition constrainSpan ::
  "('e \<Rightarrow> 'v option) \<Rightarrow> ('v \<Rightarrow> 'v option \<Rightarrow> int) \<Rightarrow> 'e Span \<Rightarrow> 'e Span \<Rightarrow> 'e Span" where
  "constrainSpan Value Collate span1 span2 =
    (let span1 =
       (if length (Low (Range span2)) > 0 then
          (if length (Low (Range span1)) = 0 then
             span1\<lparr>Range := (Range span1)\<lparr>
               Low := Low (Range span2),
               Inclusion := (Inclusion (Range span1) AND HIGH) OR (Inclusion (Range span2) AND LOW)\<rparr>\<rparr>
           else
             (let low1 = Value (Low (Range span1) ! 0);
                  low2 = Value (Low (Range span2) ! 0)
              in if (case low1 of None \<Rightarrow> False
                     | Some l1 \<Rightarrow> low2 = None \<or> Collate l1 low2 < 0)
                 then span1\<lparr>Range := (Range span1)\<lparr>
                        Low := Low (Range span2),
                        Inclusion := (Inclusion (Range span1) AND HIGH) OR
                                     (Inclusion (Range span2) AND LOW)\<rparr>\<rparr>
                 else span1))
        else span1);
         span1 =
       (if length (High (Range span2)) > 0 then
          (if length (High (Range span1)) = 0 then
             span1\<lparr>Range := (Range span1)\<lparr>
               High := High (Range span2),
               Inclusion := (Inclusion (Range span1) AND LOW) OR (Inclusion (Range span2) AND HIGH)\<rparr>\<rparr>
           else
             (let high1 = Value (High (Range span1) ! 0);
                  high2 = Value (High (Range span2) ! 0)
              in if (case high1 of None \<Rightarrow> False
                     | Some h1 \<Rightarrow> high2 = None \<and> Collate h1 high2 > 0)
                 then span1\<lparr>Range := (Range span1)\<lparr>
                        High := High (Range span2),
                        Inclusion := (Inclusion (Range span1) AND LOW) OR
                                     (Inclusion (Range span2) AND HIGH)\<rparr>\<rparr>
                 else span1))
        else span1)
     in span1)"

section \<open>Package datastore: the catalog\<close>

datatype IndexState = DEFERRED | BUILDING | PENDING | ONLINE | OFFLINE

text \<open>
  A Go \<^verbatim>\<open>error\<close> as the planner meets it: a message built by \<^verbatim>\<open>fmt.Errorf\<close>, an
  \<^verbatim>\<open>errors.Error\<close> handed up by the catalog or a mapper, or a plan error.
\<close>

datatype go_error = Errorf string | Error err | PlanError string

text \<open>
  \<^verbatim>\<open>datastore.Index\<close> is an interface; an index is modelled by what its methods return.
  \<open>Id\<close> stands for the identity of the object. \<open>asPrimaryIndex\<close> tells whether the
  type assertion \<^verbatim>\<open>index.(datastore.PrimaryIndex)\<close> succeeds. \<open>State\<close> is the state
  and the error of \<^verbatim>\<open>State()\<close>; its message is never read.
\<close>

record 'e Index =
  Id :: string
  Name :: string
  RangeKey :: "'e list"
  Condition :: "'e option"
  IsPrimary :: bool
  asPrimaryIndex :: bool
  State :: "IndexState \<times> err option"

record 'e Indexer =
  Indexes :: "'e Index list \<times> err option"
  PrimaryIndexes :: "'e Index list \<times> err option"
  IndexByName :: "string \<Rightarrow> 'e Index option \<times> err option"

record 'e Keyspace =
  KeyspaceName :: string
  Indexers :: "'e Indexer list \<times> err option"
  Indexer :: "string \<Rightarrow> 'e Indexer option \<times> err option"

section \<open>Package planner: buildPrimaryIndex\<close>

text \<open>
  A pair \<open>(primary, err)\<close> is what buildPrimaryIndex returns: each component may be nil.
\<close>

type_synonym 'e primary_result = "'e Index option \<times> go_error option"

text \<open>
  The loops over \<^verbatim>\<open>hintIndexes\<close> and \<^verbatim>\<open>otherIndexes\<close>: the first index that says it is
  primary ends the function, with the index or with a cast error. \<open>None\<close>: the loop
  ran to its end. The named result \<open>err\<close> is passed in, since a bare \<^verbatim>\<open>return\<close>
  returns it. (A nil slice is the empty list: the test \<^verbatim>\<open>otherIndexes != nil\<close> only
  skips a loop that would not run.)
\<close>

fun first_primary :: "go_error option \<Rightarrow> 'e Index list \<Rightarrow> 'e primary_result option" where
  "first_primary err [] = None"
| "first_primary err (index # indexes) =
    (if \<not> IsPrimary index then first_primary err indexes
     else if asPrimaryIndex index then Some (Some index, err)
     else Some (None, Some (Errorf (''Unable to cast primary index '' @ Name index))))"

text \<open>
  The inner loop \<^verbatim>\<open>for _, primary = range primaries\<close> assigns to the named result
  \<^verbatim>\<open>primary\<close>, here \<open>prim\<close>; \<open>Inr\<close> is its value when the loop runs to its end.
\<close>

fun online_primary ::
  "go_error option \<Rightarrow> 'e Index list \<Rightarrow> 'e Index option \<Rightarrow> 'e primary_result + 'e Index option" where
  "online_primary err [] prim = Inr prim"
| "online_primary err (p # primaries) prim =
    (case State p of
       (state, Some er) \<Rightarrow> Inl (None, Some (Error er))
     | (state, None) \<Rightarrow>
         if state = ONLINE then Inl (Some p, err)
         else online_primary err primaries (Some p))"

fun online_primary_of_indexers ::
  "go_error option \<Rightarrow> 'e Indexer list \<Rightarrow> 'e Index option \<Rightarrow> 'e primary_result + 'e Index option" where
  "online_primary_of_indexers err [] prim = Inr prim"
| "online_primary_of_indexers err (indexer # indexers) prim =
    (case PrimaryIndexes indexer of
       (primaries, Some er) \<Rightarrow> Inl (None, Some (Error er))
     | (primaries, None) \<Rightarrow>
         (case online_primary err primaries prim of
            Inl r \<Rightarrow> Inl r
          | Inr prim' \<Rightarrow> online_primary_of_indexers err indexers prim'))"

text \<open>
  \<^verbatim>\<open>buildPrimaryIndex\<close>. The named results \<^verbatim>\<open>primary\<close> (here \<open>prim\<close>) and \<open>err\<close>
  start as nil. When
  \<^verbatim>\<open>keyspace.Indexers()\<close> fails with \<open>er\<close>, the source returns \<^verbatim>\<open>nil, err\<close>.
\<close>

definition buildPrimaryIndex ::
  "'e Keyspace \<Rightarrow> 'e Index list \<Rightarrow> 'e Index list \<Rightarrow> 'e primary_result" where
  "buildPrimaryIndex keyspace hintIndexes otherIndexes =
    (let prim = None; err = None
     in case first_primary err hintIndexes of
          Some r \<Rightarrow> r
        | None \<Rightarrow>
           (case first_primary err otherIndexes of
              Some r \<Rightarrow> r
            | None \<Rightarrow>
               (case Indexers keyspace of
                  (indexers, Some er) \<Rightarrow> (None, err)
                | (indexers, None) \<Rightarrow>
                   (case online_primary_of_indexers err indexers prim of
                      Inl r \<Rightarrow> r
                    | Inr None \<Rightarrow>
                        (None, Some (Errorf (''No primary index on keyspace '' @ KeyspaceName keyspace
                           @ ''. Use CREATE PRIMARY INDEX to create one.'')))
                    | Inr (Some p) \<Rightarrow>
                        (None, Some (Errorf (''Primary index '' @ Name p @ '' not online.'')))))))"

section \<open>Package planner: candidate indexes\<close>

text \<open>
  A call that returns a value and an error, or panics: \<open>Fail\<close> is the return of a
  non-nil error, \<open>Ok\<close> the return of a value with a nil error.
\<close>

datatype 'a result = Panic | Fail go_error | Ok 'a

record 'e indexEntry =
  keys :: "'e list"
  sargKeys :: "'e list"
  cond :: "'e option"
  spans :: "'e Spans option"

text \<open>
  The loop over the keys of a secondary index in sargableIndexes: each key is copied,
  then mapped by the formalizer and by the DNF mapper; the first error ends
  sargableIndexes. Both mappers are arguments of sargableIndexes and outside the sources;
  here they return the mapped expression or an error.
\<close>

fun map_keys ::
  "('e \<Rightarrow> go_error + 'e) \<Rightarrow> ('e \<Rightarrow> go_error + 'e) \<Rightarrow> 'e list \<Rightarrow> go_error + 'e list" where
  "map_keys formalizer dnf [] = Inr []"
| "map_keys formalizer dnf (key # rest) =
    (case formalizer key of
       Inl e \<Rightarrow> Inl e
     | Inr key1 \<Rightarrow>
        (case dnf key1 of
           Inl e \<Rightarrow> Inl e
         | Inr key2 \<Rightarrow>
            (case map_keys formalizer dnf rest of
               Inl e \<Rightarrow> Inl e
             | Inr rest' \<Rightarrow> Inr (key2 # rest'))))"

definition index_keys ::
  "('e \<Rightarrow> go_error + 'e) \<Rightarrow> ('e \<Rightarrow> go_error + 'e) \<Rightarrow> 'e list \<Rightarrow> 'e Index \<Rightarrow> go_error + 'e list" where
  "index_keys formalizer dnf primaryKey index =
    (if IsPrimary index then Inr primaryKey else map_keys formalizer dnf (RangeKey index))"

definition index_cond ::
  "('e \<Rightarrow> go_error + 'e) \<Rightarrow> ('e \<Rightarrow> go_error + 'e) \<Rightarrow> 'e Index \<Rightarrow> go_error + 'e option" where
  "index_cond formalizer dnf index =
    (case Condition index of
       None \<Rightarrow> Inr None
     | Some c \<Rightarrow>
        (case formalizer c of
           Inl e \<Rightarrow> Inl e
         | Inr c1 \<Rightarrow>
            (case dnf c1 of
               Inl e \<Rightarrow> Inl e
             | Inr c2 \<Rightarrow> Inr (Some c2))))"

text \<open>
  \<^verbatim>\<open>sargableIndexes\<close>: the loop over \<^verbatim>\<open>indexes\<close>, with the map \<^verbatim>\<open>sargables\<close> as
  accumulator. \<open>SubsetOf\<close> and \<open>SargableFor\<close> are functions of the package that are
  outside the sources. The slice \<^verbatim>\<open>keys[0:n]\<close> panics when \<open>n\<close> exceeds what
  \<^verbatim>\<open>keys\<close> holds.
\<close>

fun sargableIndexes_loop ::
  "('e \<Rightarrow> 'e \<Rightarrow> bool) \<Rightarrow> ('e \<Rightarrow> 'e list \<Rightarrow> int) \<Rightarrow>
   ('e \<Rightarrow> go_error + 'e) \<Rightarrow> ('e \<Rightarrow> go_error + 'e) \<Rightarrow> 'e \<Rightarrow> 'e list \<Rightarrow>
   'e Index list \<Rightarrow> ('e Index \<rightharpoonup> 'e indexEntry) \<Rightarrow> ('e Index \<rightharpoonup> 'e indexEntry) result" where
  "sargableIndexes_loop SubsetOf SargableFor formalizer dnf pred primaryKey [] sargables =
     Ok sargables"
| "sargableIndexes_loop SubsetOf SargableFor formalizer dnf pred primaryKey (index # indexes) sargables =
    (case index_keys formalizer dnf primaryKey index of
       Inl e \<Rightarrow> Fail e
     | Inr ks \<Rightarrow>
        (case index_cond formalizer dnf index of
           Inl e \<Rightarrow> Fail e
         | Inr c \<Rightarrow>
            if (case c of None \<Rightarrow> False | Some c' \<Rightarrow> \<not> SubsetOf pred c')
            then sargableIndexes_loop SubsetOf SargableFor formalizer dnf pred primaryKey indexes sargables
            else
              (let n = SargableFor pred ks
               in if n > 0
                  then (if nat n \<le> length ks
                        then sargableIndexes_loop SubsetOf SargableFor formalizer dnf pred primaryKey
                               indexes
                               (sargables(index \<mapsto>
                                  \<lparr>keys = ks, sargKeys = take (nat n) ks, cond = c, spans = None\<rparr>))
                        else Panic)
                  else sargableIndexes_loop SubsetOf SargableFor formalizer dnf pred primaryKey
                         indexes sargables)))"

definition sargableIndexes ::
  "('e \<Rightarrow> 'e \<Rightarrow> bool) \<Rightarrow> ('e \<Rightarrow> 'e list \<Rightarrow> int) \<Rightarrow>
   'e Index list \<Rightarrow> 'e \<Rightarrow> 'e list \<Rightarrow> ('e \<Rightarrow> go_error + 'e) \<Rightarrow> ('e \<Rightarrow> go_error + 'e) \<Rightarrow>
   ('e Index \<rightharpoonup> 'e indexEntry) result" where
  "sargableIndexes SubsetOf SargableFor indexes pred primaryKey dnf formalizer =
     sargableIndexes_loop SubsetOf SargableFor formalizer dnf pred primaryKey indexes Map.empty"

text \<open>\<^verbatim>\<open>narrowerOrEquivalent(se, te)\<close>, test by test.\<close>

definition narrowerOrEquivalent ::
  "('e \<Rightarrow> 'e \<Rightarrow> bool) \<Rightarrow> 'e indexEntry \<Rightarrow> 'e indexEntry \<Rightarrow> bool" where
  "narrowerOrEquivalent SubsetOf se te =
    (if length (sargKeys te) > length (sargKeys se) then False
     else if (case cond te of
                None \<Rightarrow> False
              | Some tc \<Rightarrow> (case cond se of None \<Rightarrow> True | Some sc \<Rightarrow> \<not> SubsetOf sc tc))
     then False
     else if \<not> list_all (\<lambda>tk. list_ex (\<lambda>sk. SubsetOf sk tk) (sargKeys se)) (sargKeys te)
     then False
     else length (sargKeys se) > length (sargKeys te) \<or> length (keys se) \<le> length (keys te))"

text \<open>
  Ranging over a Go map yields its entries in an order that the language leaves open, and
  an entry deleted before it is reached is not produced. A loop over a map is therefore
  modelled over a list of keys, the order of the visit, which skips every key that the
  map does not hold when its turn comes.

  The first loop nest of \<^verbatim>\<open>minimalIndexes\<close>: \<open>prune_inner\<close> is the loop over \<open>t\<close> for
  one \<open>s\<close>, \<open>prune\<close> the loop over \<open>s\<close>; \<open>inner s\<close> is the order of the inner visit
  made for \<open>s\<close>.
\<close>

fun prune_inner ::
  "('e \<Rightarrow> 'e \<Rightarrow> bool) \<Rightarrow> 'k \<Rightarrow> 'e indexEntry \<Rightarrow> 'k list \<Rightarrow> ('k \<rightharpoonup> 'e indexEntry)
     \<Rightarrow> ('k \<rightharpoonup> 'e indexEntry)" where
  "prune_inner SubsetOf s se [] sargables = sargables"
| "prune_inner SubsetOf s se (t # ts) sargables =
    (case sargables t of
       None \<Rightarrow> prune_inner SubsetOf s se ts sargables
     | Some te \<Rightarrow>
         if t = s then prune_inner SubsetOf s se ts sargables
         else if narrowerOrEquivalent SubsetOf se te
         then prune_inner SubsetOf s se ts (sargables(t := None))
         else prune_inner SubsetOf s se ts sargables)"

fun prune ::
  "('e \<Rightarrow> 'e \<Rightarrow> bool) \<Rightarrow> ('k \<Rightarrow> 'k list) \<Rightarrow> 'k list \<Rightarrow> ('k \<rightharpoonup> 'e indexEntry)
     \<Rightarrow> ('k \<rightharpoonup> 'e indexEntry)" where
  "prune SubsetOf inner [] sargables = sargables"
| "prune SubsetOf inner (s # ss) sargables =
    (case sargables s of
       None \<Rightarrow> prune SubsetOf inner ss sargables
     | Some se \<Rightarrow> prune SubsetOf inner ss (prune_inner SubsetOf s se (inner s) sargables))"

text \<open>The entries a loop without deletions visits, for a given order.\<close>

definition range_map :: "('k \<rightharpoonup> 'v) \<Rightarrow> 'k list \<Rightarrow> ('k \<times> 'v) list" where
  "range_map m order = List.map_filter (\<lambda>k. map_option (Pair k) (m k)) order"

text \<open>
  The second loop of \<^verbatim>\<open>minimalIndexes\<close>. \<open>sarg\<close> is the visitor \<^verbatim>\<open>newSarg(pred)\<close> that
  SargFor builds. The text of the plan error prints the predicate and the keys with
  printers that are outside the sources; the model keeps its fixed head.
\<close>

fun sarg_entries ::
  "(bool \<Rightarrow> 'e \<Rightarrow> 'e Spans option \<times> go_error option) \<Rightarrow> ('k \<times> 'e indexEntry) list
     \<Rightarrow> ('k \<rightharpoonup> 'e indexEntry) \<Rightarrow> ('k \<rightharpoonup> 'e indexEntry) result" where
  "sarg_entries sarg [] minimals = Ok minimals"
| "sarg_entries sarg ((s, se) # rest) minimals =
    (case SargFor sarg (sargKeys se) (int (length (keys se))) of
       (sp, err) \<Rightarrow>
         if err \<noteq> None \<or> len sp = 0
         then Fail (PlanError ''Sargable index not sarged'')
         else sarg_entries sarg rest (minimals(s \<mapsto> se\<lparr>spans := sp\<rparr>)))"

definition minimalIndexes ::
  "('e \<Rightarrow> 'e \<Rightarrow> bool) \<Rightarrow> ('e \<Rightarrow> bool \<Rightarrow> 'e \<Rightarrow> 'e Spans option \<times> go_error option) \<Rightarrow>
   ('k \<Rightarrow> 'k list) \<Rightarrow> 'k list \<Rightarrow> 'k list \<Rightarrow>
   ('k \<rightharpoonup> 'e indexEntry) \<Rightarrow> 'e \<Rightarrow> ('k \<rightharpoonup> 'e indexEntry) result" where
  "minimalIndexes SubsetOf newSarg inner outer order2 sargables pred =
    (let sargables = prune SubsetOf inner outer sargables
     in sarg_entries (newSarg pred) (range_map sargables order2) Map.empty)"

section \<open>Package plan: scan operators\<close>

text \<open>
  What the planner reads of an \<^verbatim>\<open>algebra.KeyspaceTerm\<close>: its names, the \<^verbatim>\<open>USE KEYS\<close>
  expression and the \<^verbatim>\<open>USE INDEX\<close> hints, either of which may be nil.
\<close>

record IndexRef =
  RefName :: string
  Using :: string

record 'e KeyspaceTerm =
  TermNamespace :: string
  TermKeyspace :: string
  Alias :: string
  Keys :: "'e option"
  TermIndexes :: "IndexRef list option"

text \<open>
  The scan operators with the arguments of their constructors: \<^verbatim>\<open>NewPrimaryScan(index,
  keyspace, term, limit)\<close>, \<^verbatim>\<open>NewIndexScan(index, term, spans, distinct, limit, covers)\<close>,
  \<^verbatim>\<open>NewKeyScan(keys)\<close>, \<^verbatim>\<open>NewIntersectScan(scans...)\<close> and \<^verbatim>\<open>NewUnionScan(scans...)\<close>.
  A cover is given by the expression it wraps.
\<close>

datatype 'e Operator =
    PrimaryScan "'e Index option" "'e Keyspace" "'e KeyspaceTerm" "'e option"
  | IndexScan "'e Index" "'e KeyspaceTerm" "'e Spans option" bool "'e option" "'e list option"
  | KeyScan 'e
  | IntersectScan "'e Operator list"
  | UnionScan "'e Operator list"

section \<open>Package planner: the builder and its scans\<close>

text \<open>
  The fields of the builder that scan selection touches. The \<^verbatim>\<open>WHERE\<close> predicate is an
  object shared with the caller, so the field \<^verbatim>\<open>where\<close> holds its address in a store of
  expression objects (see below), or nil. \<open>cover\<close> holds the expressions of
  \<^verbatim>\<open>this.cover\<close>, or nil.
\<close>

record 'e builder =
  where_clause :: "nat option"
  cover :: "'e list option"
  coveringScan :: "'e Operator option"
  maxParallelism :: int

text \<open>
  \<^verbatim>\<open>buildCoveringScan\<close> over the entries of \<^verbatim>\<open>secondaries\<close> in the order of the visit.
  \<open>CoveredBy\<close> is \<^verbatim>\<open>expr.CoveredBy(keys)\<close>, outside the sources. The error it returns is
  always nil.
\<close>

fun covering_entry ::
  "('e \<Rightarrow> 'e list \<Rightarrow> bool) \<Rightarrow> 'e list \<Rightarrow> ('e Index \<times> 'e indexEntry) list
     \<Rightarrow> ('e Index \<times> 'e indexEntry) option" where
  "covering_entry CoveredBy exprs [] = None"
| "covering_entry CoveredBy exprs ((index, entry) # rest) =
    (if list_all (\<lambda>expr. CoveredBy expr (keys entry)) exprs then Some (index, entry)
     else covering_entry CoveredBy exprs rest)"

definition buildCoveringScan ::
  "('e \<Rightarrow> 'e list \<Rightarrow> bool) \<Rightarrow> 'e builder \<Rightarrow> ('e Index \<times> 'e indexEntry) list \<Rightarrow>
   'e KeyspaceTerm \<Rightarrow> 'e option \<Rightarrow> 'e builder \<times> 'e Operator option" where
  "buildCoveringScan CoveredBy this secondaries node limit =
    (case cover this of
       None \<Rightarrow> (this, None)
     | Some exprs \<Rightarrow>
        (case covering_entry CoveredBy exprs secondaries of
           None \<Rightarrow> (this, None)
         | Some (index, entry) \<Rightarrow>
            (let scan = IndexScan index node (spans entry) False limit (Some (keys entry))
             in (this\<lparr>coveringScan := Some scan\<rparr>, Some scan))))"

text \<open>
  \<^verbatim>\<open>buildSecondaryScan\<close>. The map \<^verbatim>\<open>secondaries\<close> is ranged over twice, once in
  buildCoveringScan and once here; \<open>cover_order\<close> and \<open>scan_order\<close> are the orders
  of the two visits. \<^verbatim>\<open>scans[0]\<close> panics on an empty slice.
\<close>

definition index_scan_op :: "'e KeyspaceTerm \<Rightarrow> 'e option \<Rightarrow> 'e Index \<times> 'e indexEntry \<Rightarrow> 'e Operator" where
  "index_scan_op node limit ie =
    (case ie of (index, entry) \<Rightarrow>
      (let op = IndexScan index node (spans entry) False limit None
       in if len (spans entry) > 1 then UnionScan [op] else op))"

definition buildSecondaryScan ::
  "('e \<Rightarrow> 'e list \<Rightarrow> bool) \<Rightarrow> 'e Index list \<Rightarrow> 'e Index list \<Rightarrow> 'e builder \<Rightarrow>
   ('e Index \<rightharpoonup> 'e indexEntry) \<Rightarrow> 'e KeyspaceTerm \<Rightarrow> 'e option \<Rightarrow>
   ('e builder \<times> 'e Operator) result" where
  "buildSecondaryScan CoveredBy cover_order scan_order this secondaries node limit =
    (case (if cover this \<noteq> None
           then buildCoveringScan CoveredBy this (range_map secondaries cover_order) node limit
           else (this, None)) of
       (this, Some scan) \<Rightarrow> Ok (this, scan)
     | (this, None) \<Rightarrow>
        (let scans = map (index_scan_op node limit) (range_map secondaries scan_order)
         in if length scans > 1 then Ok (this, IntersectScan scans)
            else if length scans = 0 then Panic
            else Ok (this, scans ! 0)))"

text \<open>
  \<^verbatim>\<open>buildPrimaryScan\<close> hands whatever index buildPrimaryIndex returned with a nil error
  to \<^verbatim>\<open>NewPrimaryScan\<close>.
\<close>

definition buildPrimaryScan ::
  "'e Keyspace \<Rightarrow> 'e KeyspaceTerm \<Rightarrow> 'e option \<Rightarrow> 'e Index list \<Rightarrow> 'e Index list
     \<Rightarrow> 'e Operator result" where
  "buildPrimaryScan keyspace node limit hintIndexes otherIndexes =
    (case buildPrimaryIndex keyspace hintIndexes otherIndexes of
       (prim, Some e) \<Rightarrow> Fail e
     | (prim, None) \<Rightarrow> Ok (PrimaryScan prim keyspace node limit))"

section \<open>Package planner: enumerating the indexes\<close>

text \<open>
  \<^verbatim>\<open>allHints\<close> and \<^verbatim>\<open>allIndexes\<close>; the list argument \<open>indexes\<close> is the slice built so
  far. An index whose \<^verbatim>\<open>State()\<close> fails or is not ONLINE is skipped (the log line written
  for a failure is not modelled). A catalog call that returns neither a value nor an
  error leaves a nil interface, whose method call panics.
\<close>

definition online :: "'e Index \<Rightarrow> bool" where
  "online index = (case State index of (state, er) \<Rightarrow> \<not> (er \<noteq> None \<or> state \<noteq> ONLINE))"

fun allHints_loop :: "'e Keyspace \<Rightarrow> IndexRef list \<Rightarrow> 'e Index list \<Rightarrow> 'e Index list result" where
  "allHints_loop keyspace [] indexes = Ok indexes"
| "allHints_loop keyspace (hint # hints) indexes =
    (case Indexer keyspace (Using hint) of
       (_, Some e) \<Rightarrow> Fail (Error e)
     | (None, None) \<Rightarrow> Panic
     | (Some indexer, None) \<Rightarrow>
        (case IndexByName indexer (RefName hint) of
           (_, Some e) \<Rightarrow> Fail (Error e)
         | (None, None) \<Rightarrow> Panic
         | (Some index, None) \<Rightarrow>
             if online index then allHints_loop keyspace hints (indexes @ [index])
             else allHints_loop keyspace hints indexes))"

definition allHints :: "'e Keyspace \<Rightarrow> IndexRef list \<Rightarrow> 'e Index list result" where
  "allHints keyspace hints = allHints_loop keyspace hints []"

fun allIndexes_loop :: "'e Indexer list \<Rightarrow> 'e Index list \<Rightarrow> 'e Index list result" where
  "allIndexes_loop [] indexes = Ok indexes"
| "allIndexes_loop (indexer # indexers) indexes =
    (case Indexes indexer of
       (_, Some e) \<Rightarrow> Fail (Error e)
     | (idxes, None) \<Rightarrow> allIndexes_loop indexers (indexes @ filter online idxes))"

definition allIndexes :: "'e Keyspace \<Rightarrow> 'e Index list result" where
  "allIndexes keyspace =
    (case Indexers keyspace of
       (_, Some e) \<Rightarrow> Fail (Error e)
     | (indexers, None) \<Rightarrow> allIndexes_loop indexers [])"

section \<open>Package planner: selectScan and buildScan\<close>

text \<open>
  Expression objects live in a store, a list of cells addressed by position; a cell
  holds the whole expression tree that an object is the root of.
\<close>

type_synonym 'e store = "'e list"

text \<open>
  Modelled from the spec: the sources declare the method \<^verbatim>\<open>Copy\<close> in the
  \<^verbatim>\<open>Expression\<close> interface ("returns an expression that is a deep copy") and hold none
  of its implementations. The spec calls \<^verbatim>\<open>copy()\<close> a deep copy, made defensively before
  mutating: \<open>Copy\<close> allocates a new cell with the same content and returns its
  address.
\<close>

definition Copy :: "'e store \<Rightarrow> nat \<Rightarrow> 'e store \<times> nat" where
  "Copy h p = (h @ [h ! p], length h)"

text \<open>
  Modelled from the spec: the method \<^verbatim>\<open>Map\<close> of a mapper (here of the DNF mapper) is not
  among the sources; they hold only calls of it and the declaration of
  \<^verbatim>\<open>MapChildren\<close>, which maps the children of an expression. By the spec the source
  mutates expressions after copying them: a mapper rewrites the tree it is given in
  place. \<open>Map_in_place\<close> overwrites the cell it is given with what the mapper leaves
  there, and writes no other cell.
\<close>

definition Map_in_place :: "('e \<Rightarrow> 'e) \<Rightarrow> 'e store \<Rightarrow> nat \<Rightarrow> 'e store" where
  "Map_in_place leaves h p = h[p := leaves (h ! p)]"

text \<open>
  The parts of the planner and the implementations of the expression package that the
  sources do not hold,
  as one record: \<^verbatim>\<open>SubsetOf\<close>, \<^verbatim>\<open>SargableFor\<close>, the visitor \<^verbatim>\<open>newSarg(pred)\<close>,
  \<^verbatim>\<open>CoveredBy\<close>, the DNF mapper (its result and what it leaves in the object it was
  given), the formalizer for an alias, the primary-key expression \<^verbatim>\<open>meta(alias).id\<close>, and
  the two type tests that selectScan makes on the \<^verbatim>\<open>USE KEYS\<close> expression.
\<close>

record 'e deps =
  SubsetOf :: "'e \<Rightarrow> 'e \<Rightarrow> bool"
  SargableFor :: "'e \<Rightarrow> 'e list \<Rightarrow> int"
  newSarg :: "'e \<Rightarrow> bool \<Rightarrow> 'e \<Rightarrow> 'e Spans option \<times> go_error option"
  CoveredBy :: "'e \<Rightarrow> 'e list \<Rightarrow> bool"
  dnf_Map :: "'e \<Rightarrow> go_error + 'e"
  dnf_leaves :: "'e \<Rightarrow> 'e"
  formalizer_Map :: "string \<Rightarrow> 'e \<Rightarrow> go_error + 'e"
  primary_key_of :: "string \<Rightarrow> 'e"
  array_operands :: "'e \<Rightarrow> 'e list option"
  is_parameter :: "'e \<Rightarrow> bool"

text \<open>The orders in which the maps of one planning call are ranged over.\<close>

record 'e visits =
  outer_order :: "'e Index list"
  inner_order :: "'e Index \<Rightarrow> 'e Index list"
  sarg_order :: "'e Index list"
  cover_order :: "'e Index list"
  scan_order :: "'e Index list"

text \<open>
  \<^verbatim>\<open>buildScan\<close> returns \<open>(secondary, primary, err)\<close>; the model returns the store and the
  builder as well. The part under \<^verbatim>\<open>if pred != nil\<close> is \<open>buildScan_where\<close>: \<open>None\<close>
  means that it fell through to the primary scan. (An address beyond the store cannot
  arise in Go; the model stops there.)
\<close>

type_synonym 'e scan_result = "('e Operator option \<times> 'e Operator option) result"

definition buildScan_where ::
  "'e deps \<Rightarrow> 'e visits \<Rightarrow> 'e store \<Rightarrow> 'e builder \<Rightarrow> 'e KeyspaceTerm \<Rightarrow> 'e option \<Rightarrow>
   'e Index list \<Rightarrow> nat \<Rightarrow> 'e store \<times> 'e builder \<times> 'e scan_result option" where
  "buildScan_where D V h this node limit indexes pred =
    (if \<not> pred < length h then (h, this, Some Panic)
     else
      (let (h, pred) = Copy h pred;
           r = dnf_Map D (h ! pred);
           h = Map_in_place (dnf_leaves D) h pred
       in case r of
            Inl e \<Rightarrow> (h, this, Some (Fail e))
          | Inr pred \<Rightarrow>
             (let formalizer = formalizer_Map D (Alias node);
                  primaryKey = [primary_key_of D (Alias node)]
              in case sargableIndexes (SubsetOf D) (SargableFor D) indexes pred primaryKey
                        (dnf_Map D) formalizer of
                   Panic \<Rightarrow> (h, this, Some Panic)
                 | Fail e \<Rightarrow> (h, this, Some (Fail e))
                 | Ok sargables \<Rightarrow>
                    (case minimalIndexes (SubsetOf D) (newSarg D) (inner_order V) (outer_order V)
                            (sarg_order V) sargables pred of
                       Panic \<Rightarrow> (h, this, Some Panic)
                     | Fail e \<Rightarrow> (h, this, Some (Fail e))
                     | Ok minimals \<Rightarrow>
                        if minimals \<noteq> Map.empty
                        then (case buildSecondaryScan (CoveredBy D) (cover_order V) (scan_order V)
                                     this minimals node limit of
                                Panic \<Rightarrow> (h, this, Some Panic)
                              | Fail e \<Rightarrow> (h, this, Some (Fail e))
                              | Ok (this, secondary) \<Rightarrow> (h, this, Some (Ok (Some secondary, None))))
                        else (h, this, None)))))"

definition buildScan ::
  "'e deps \<Rightarrow> 'e visits \<Rightarrow> 'e store \<Rightarrow> 'e builder \<Rightarrow> 'e Keyspace \<Rightarrow> 'e KeyspaceTerm \<Rightarrow> 'e option
     \<Rightarrow> 'e store \<times> 'e builder \<times> 'e scan_result" where
  "buildScan D V h this keyspace node limit =
    (let hints = TermIndexes node;
         found = (case hints of Some hs \<Rightarrow> allHints keyspace hs | None \<Rightarrow> allIndexes keyspace)
     in case found of
          Panic \<Rightarrow> (h, this, Panic)
        | Fail e \<Rightarrow> (h, this, Fail e)
        | Ok indexes \<Rightarrow>
           (let hintIndexes = (if hints \<noteq> None then indexes else []);
                otherIndexes = (if hints \<noteq> None then [] else indexes);
                (h, this, done) =
                  (case where_clause this of
                     None \<Rightarrow> (h, this, None)
                   | Some pred \<Rightarrow> buildScan_where D V h this node limit indexes pred)
            in case done of
                 Some r \<Rightarrow> (h, this, r)
               | None \<Rightarrow>
                  (case buildPrimaryScan keyspace node limit hintIndexes otherIndexes of
                     Panic \<Rightarrow> (h, this, Panic)
                   | Fail e \<Rightarrow> (h, this, Fail e)
                   | Ok prim \<Rightarrow> (h, this, Ok (None, Some prim)))))"

text \<open>
  \<^verbatim>\<open>selectScan\<close>. \<^verbatim>\<open>util.MaxInt(1, n)\<close> is the larger of the two. When buildScan returns
  no secondary scan, the primary scan is returned, nil or not.
\<close>

definition selectScan ::
  "'e deps \<Rightarrow> 'e visits \<Rightarrow> 'e store \<Rightarrow> 'e builder \<Rightarrow> 'e Keyspace \<Rightarrow> 'e KeyspaceTerm \<Rightarrow> 'e option
     \<Rightarrow> 'e store \<times> 'e builder \<times> 'e Operator option result" where
  "selectScan D V h this keyspace node limit =
    (case Keys node of
       Some ks \<Rightarrow>
         (let this = this\<lparr>maxParallelism :=
                (case array_operands D ks of
                   Some operands \<Rightarrow> max 1 (int (length operands))
                 | None \<Rightarrow> if is_parameter D ks then 0 else 1)\<rparr>
          in (h, this, Ok (Some (KeyScan ks))))
     | None \<Rightarrow>
         (let this = this\<lparr>maxParallelism := 0\<rparr>
          in case buildScan D V h this keyspace node limit of
               (h, this, Panic) \<Rightarrow> (h, this, Panic)
             | (h, this, Fail e) \<Rightarrow> (h, this, Fail e)
             | (h, this, Ok (Some secondary, prim)) \<Rightarrow> (h, this, Ok (Some secondary))
             | (h, this, Ok (None, prim)) \<Rightarrow> (h, this, Ok prim)))"

section \<open>Concrete inputs\<close>

text \<open>
  Visitors over integer keys, used to run SargFor. \<open>range_visitor\<close> answers as a
  predicate \<^verbatim>\<open>k0 = 5 AND (k1 >= 1 OR k1 < 9) AND k2 < 9\<close> would on an index \<^verbatim>\<open>(k0, k1, k2)\<close>.
\<close>

definition hi_only :: "int Span" where
  "hi_only = \<lparr>Range = \<lparr>Low = [], High = [9], Inclusion = NEITHER\<rparr>\<rparr>"

definition lo_only :: "int Span" where
  "lo_only = \<lparr>Range = \<lparr>Low = [1], High = [], Inclusion = LOW\<rparr>\<rparr>"

definition eq5 :: "int Span" where
  "eq5 = \<lparr>Range = \<lparr>Low = [5], High = [5], Inclusion = BOTH\<rparr>\<rparr>"

definition range_visitor :: "bool \<Rightarrow> int \<Rightarrow> int Spans option \<times> unit option" where
  "range_visitor mh key =
    (if key = 2 then (Some [Obj hi_only], None)
     else if key = 1 then (Some [Obj lo_only, Obj hi_only], None)
     else (Some [Obj eq5], None))"

definition wide_visitor :: "bool \<Rightarrow> nat \<Rightarrow> nat Spans option \<times> go_error option" where
  "wide_visitor mh key = (Some (replicate 300 (Obj FULL_SPAN)), None)"

definition failing_visitor :: "bool \<Rightarrow> nat \<Rightarrow> nat Spans option \<times> go_error option" where
  "failing_visitor mh key = (None, Some (Errorf ''not sargable''))"

text \<open>
  A context that has received nothing, and an error carrying the code that stands for
  \<^verbatim>\<open>INDEX_SCAN_TIMEOUT\<close> in the runs below; the sources do not give the constant, and
  12016 is taken for it.
\<close>

definition no_reports :: Context where
  "no_reports = \<lparr>fatals = [], errors = [], warnings = []\<rparr>"

definition scan_timeout :: err where
  "scan_timeout = \<lparr>ICode = 12016, IKey = ''datastore.index.scan_timeout'', ICause = None,
     InternalMsg = ''Index scan timed out'', InternalCaller = ''unknown:0'', level = 0\<rparr>"

text \<open>
  Integer constants as expressions: every expression is its own static value, and
  \<open>int_collate\<close> orders them as numbers (anything sorts above nil).
\<close>

definition int_collate :: "int \<Rightarrow> int option \<Rightarrow> int" where
  "int_collate v w = (case w of None \<Rightarrow> 1 | Some w' \<Rightarrow> v - w')"

definition le10 :: "int Span" where
  "le10 = \<lparr>Range = \<lparr>Low = [], High = [10], Inclusion = HIGH\<rparr>\<rparr>"

definition le5 :: "int Span" where
  "le5 = \<lparr>Range = \<lparr>Low = [], High = [5], Inclusion = HIGH\<rparr>\<rparr>"

definition ge1 :: "int Span" where
  "ge1 = \<lparr>Range = \<lparr>Low = [1], High = [], Inclusion = LOW\<rparr>\<rparr>"

definition ge3 :: "int Span" where
  "ge3 = \<lparr>Range = \<lparr>Low = [3], High = [], Inclusion = LOW\<rparr>\<rparr>"

text \<open>A keyspace whose catalog call \<^verbatim>\<open>Indexers()\<close> fails.\<close>

definition catalog_down :: err where
  "catalog_down = \<lparr>ICode = 16000, IKey = ''datastore.other.datastore_generic_error'',
     ICause = None, InternalMsg = ''Error in datastore '', InternalCaller = ''unknown:0'',
     level = 0\<rparr>"

definition broken_keyspace :: "string Keyspace" where
  "broken_keyspace = \<lparr>KeyspaceName = ''k'', Indexers = ([], Some catalog_down),
     Indexer = (\<lambda>using. (None, Some catalog_down))\<rparr>"

text \<open>
  Two candidates over integer keys: an index on \<open>(1, 2)\<close> with both keys sargable and
  an index on \<open>(1)\<close>; \<open>SubsetOf\<close> is equality.
\<close>

definition wide :: "int indexEntry" where
  "wide = \<lparr>keys = [1, 2], sargKeys = [1, 2], cond = None, spans = None\<rparr>"

definition narrow :: "int indexEntry" where
  "narrow = \<lparr>keys = [1], sargKeys = [1], cond = None, spans = None\<rparr>"

definition two_candidates :: "string \<rightharpoonup> int indexEntry" where
  "two_candidates = [''by_a_b'' \<mapsto> wide, ''by_a'' \<mapsto> narrow]"

definition any_order :: "string list" where
  "any_order = [''by_a'', ''by_a_b'']"

text \<open>Two candidates on different keys: neither is narrower than the other.\<close>

definition by_a_only :: "int indexEntry" where
  "by_a_only = \<lparr>keys = [1], sargKeys = [1], cond = None, spans = None\<rparr>"

definition by_b_only :: "int indexEntry" where
  "by_b_only = \<lparr>keys = [2], sargKeys = [2], cond = None, spans = None\<rparr>"

definition apart :: "string \<rightharpoonup> int indexEntry" where
  "apart = [''by_a'' \<mapsto> by_a_only, ''by_b'' \<mapsto> by_b_only]"

definition apart_order :: "string list" where
  "apart_order = [''by_b'', ''by_a'']"





text \<open>
  The index \<^verbatim>\<open>by_status(status)\<close> with the two spans of \<^verbatim>\<open>status = "A" OR status = "B"\<close>,
  a builder without a cover and one whose cover asks for \<^verbatim>\<open>status\<close>; an expression is
  covered by the keys that hold it.
\<close>

definition by_status :: "string Index" where
  "by_status = \<lparr>Id = ''2'', Name = ''by_status'', RangeKey = [''status''],
     Condition = None, IsPrimary = False, asPrimaryIndex = False, State = (ONLINE, None)\<rparr>"

definition status_A :: "string Span" where
  "status_A = \<lparr>Range = \<lparr>Low = [''A''], High = [''A''], Inclusion = BOTH\<rparr>\<rparr>"

definition status_B :: "string Span" where
  "status_B = \<lparr>Range = \<lparr>Low = [''B''], High = [''B''], Inclusion = BOTH\<rparr>\<rparr>"

definition status_entry :: "string indexEntry" where
  "status_entry = \<lparr>keys = [''status''], sargKeys = [''status''], cond = None,
     spans = Some [Obj status_A, Obj status_B]\<rparr>"

definition term_k :: "string KeyspaceTerm" where
  "term_k = \<lparr>TermNamespace = ''default'', TermKeyspace = ''k'', Alias = ''k'',
     Keys = None, TermIndexes = None\<rparr>"

definition plain_builder :: "string builder" where
  "plain_builder = \<lparr>where_clause = Some 0, cover = None, coveringScan = None, maxParallelism = 0\<rparr>"

definition covering_builder :: "string builder" where
  "covering_builder = plain_builder\<lparr>cover := Some [''status'']\<rparr>"

definition among :: "string \<Rightarrow> string list \<Rightarrow> bool" where
  "among expr ks = (expr \<in> set ks)"

text \<open>
  A second index, \<^verbatim>\<open>by_age(age)\<close> with the one span of \<^verbatim>\<open>age > 30\<close>, and a builder whose
  cover asks for \<^verbatim>\<open>zip\<close>, which neither index holds.
\<close>

definition by_age :: "string Index" where
  "by_age = \<lparr>Id = ''3'', Name = ''by_age'', RangeKey = [''age''],
     Condition = None, IsPrimary = False, asPrimaryIndex = False, State = (ONLINE, None)\<rparr>"

definition age_gt30 :: "string Span" where
  "age_gt30 = \<lparr>Range = \<lparr>Low = [''30''], High = [], Inclusion = NEITHER\<rparr>\<rparr>"

definition age_entry :: "string indexEntry" where
  "age_entry = \<lparr>keys = [''age''], sargKeys = [''age''], cond = None,
     spans = Some [Obj age_gt30]\<rparr>"

definition zip_builder :: "string builder" where
  "zip_builder = plain_builder\<lparr>cover := Some [''zip'']\<rparr>"

definition status_and_age :: "string Index \<rightharpoonup> string indexEntry" where
  "status_and_age = [by_status \<mapsto> status_entry, by_age \<mapsto> age_entry]"

text \<open>
  A planning call on a keyspace without any index: nothing is sargable, the DNF mapper
  returns its argument and leaves \<^verbatim>\<open>rewritten\<close> in the object it was given.
\<close>

definition no_deps :: "string deps" where
  "no_deps = \<lparr>SubsetOf = (=), SargableFor = (\<lambda>p ks. 0), newSarg = (\<lambda>p mh k. (None, None)),
     CoveredBy = among, dnf_Map = Inr, dnf_leaves = (\<lambda>e. ''rewritten''),
     formalizer_Map = (\<lambda>alias. Inr), primary_key_of = (\<lambda>alias. ''meta.id''),
     array_operands = (\<lambda>e. None), is_parameter = (\<lambda>e. False)\<rparr>"

definition no_visits :: "string visits" where
  "no_visits = \<lparr>outer_order = [], inner_order = (\<lambda>s. []), sarg_order = [],
     cover_order = [], scan_order = []\<rparr>"

definition empty_keyspace :: "string Keyspace" where
  "empty_keyspace = \<lparr>KeyspaceName = ''k'', Indexers = ([], None),
     Indexer = (\<lambda>using. (None, Some catalog_down))\<rparr>"

section \<open>Results\<close>

text \<open>
  C10. For every error value with a non-empty InternalCaller, the map that MarshalJSON
  serialises has the member "caller" holding that string, whatever the string starts
  with: the prefix test looks at the literal "e.InternalCaller", which does not start
  with "unknown:".
\<close>

theorem C10_caller_always_marshalled:
  "InternalCaller e \<noteq> '''' \<Longrightarrow> MarshalJSON e ''caller'' = Some (JStr (InternalCaller e))"
  by (simp add: MarshalJSON_def HasPrefix_def Let_def split: option.split)

theorem C10_caller_always_marshalled_witness:
  "InternalCaller \<lparr>ICode = 5000, IKey = ''Internal Error'', ICause = None,
      InternalMsg = ''boom'', InternalCaller = ''unknown:0'', level = 0\<rparr> \<noteq> '''' \<and>
   HasPrefix ''unknown:0'' ''unknown:'' \<and>
   MarshalJSON \<lparr>ICode = 5000, IKey = ''Internal Error'', ICause = None,
      InternalMsg = ''boom'', InternalCaller = ''unknown:0'', level = 0\<rparr> ''caller''
     = Some (JStr ''unknown:0'')"
  using C10_caller_always_marshalled [of "\<lparr>ICode = 5000, IKey = ''Internal Error'', ICause = None,
      InternalMsg = ''boom'', InternalCaller = ''unknown:0'', level = 0\<rparr>"]
  by (simp add: HasPrefix_def)

text \<open>
  C8. On a connection on which SetPrimary has been called, Error with an error whose
  code is INDEX_SCAN_TIMEOUT raises the timeout flag and leaves the context as it was.
  In every other case (another code, or a connection whose primary flag is false) the
  error is appended, unchanged, to what the context has received, and the timeout flag
  keeps the value it had.
\<close>

theorem C8_timeout_suppressed_on_primary:
  "(ICode e = T \<longrightarrow>
      Timeout (conn_Error T e (SetPrimary c)) \<and>
      ctx (conn_Error T e (SetPrimary c)) = ctx c) \<and>
   (ICode e' \<noteq> T \<or> \<not> primary c' \<longrightarrow>
      ctx (conn_Error T e' c') = context_Error e' (ctx c') \<and>
      errors (ctx (conn_Error T e' c')) = errors (ctx c') @ [e'] \<and>
      Timeout (conn_Error T e' c') = Timeout c') \<and>
   \<not> Timeout (conn_Error T e (NewIndexConnection x))"
  by (auto simp: conn_Error_def SetPrimary_def Timeout_def context_Error_def
      NewIndexConnection_def)

theorem C8_timeout_suppressed_on_primary_witness:
  "ICode scan_timeout = 12016 \<and>
   Timeout (conn_Error 12016 scan_timeout (SetPrimary (NewIndexConnection no_reports))) \<and>
   ctx (conn_Error 12016 scan_timeout (SetPrimary (NewIndexConnection no_reports))) = no_reports \<and>
   ICode catalog_down \<noteq> 12016 \<and>
   primary (SetPrimary (NewIndexConnection no_reports)) \<and>
   errors (ctx (conn_Error 12016 catalog_down (SetPrimary (NewIndexConnection no_reports))))
     = [catalog_down] \<and>
   \<not> Timeout (conn_Error 12016 catalog_down (SetPrimary (NewIndexConnection no_reports))) \<and>
   \<not> Timeout (conn_Error 12016 scan_timeout (NewIndexConnection no_reports)) \<and>
   errors (ctx (conn_Error 12016 scan_timeout (NewIndexConnection no_reports))) = [scan_timeout]"
proof -
  have code: "ICode scan_timeout = 12016" "ICode catalog_down \<noteq> 12016"
    by (simp_all add: scan_timeout_def catalog_down_def)
  have other: "errors (ctx (conn_Error 12016 scan_timeout (NewIndexConnection no_reports))) = [scan_timeout]"
    by (simp add: conn_Error_def NewIndexConnection_def context_Error_def no_reports_def)
  show ?thesis
    using code other
      C8_timeout_suppressed_on_primary [of scan_timeout 12016 "NewIndexConnection no_reports"
        catalog_down "SetPrimary (NewIndexConnection no_reports)" no_reports]
    by (simp add: NewIndexConnection_def no_reports_def context_Error_def Timeout_def SetPrimary_def)
qed

subsection \<open>SargFor\<close>

lemma sarg_key_Inl: "sarg_key accept key i st = Inl (a, b) \<Longrightarrow> a = None"
  by (auto simp: sarg_key_def Let_def split: prod.splits option.splits if_splits)

lemma sarg_loop_Inl: "sarg_loop accept ks k st = Inl (a, b) \<Longrightarrow> a = None"
proof (induction k arbitrary: st)
  case 0
  then show ?case by simp
next
  case (Suc k)
  then show ?case
    by (auto split: sum.splits dest: sarg_key_Inl)
qed

text \<open>
  C1. Whatever the visitor, the keys and the total, SargFor returns at most 256 spans.
  When the loop over the keys runs to its end with the composed spans \<open>ns\<close>, SargFor
  returns the singleton holding the FULL_SPAN object if \<open>ns\<close> is empty or longer than
  256, and \<open>ns\<close> itself otherwise. When the visitor returns an error or a nil result
  for some key, the loop is left before anything is composed for that key: SargFor
  returns nil spans and the visitor's error.
\<close>

theorem C1_SargFor_at_most_256:
  "len (fst (SargFor accept ks tot)) \<le> 256 \<and>
   (sarg_loop accept ks (length ks) (sarg_init ks tot) = Inr (mh, ns) \<longrightarrow>
      SargFor accept ks tot =
        (if len ns = 0 \<or> 256 < len ns then (Some [FULL_SPANS_0], None) else (ns, None))) \<and>
   (sarg_loop accept' ks' (length ks') (sarg_init ks' tot') = Inl ret \<longrightarrow>
      SargFor accept' ks' tot' = ret \<and> fst ret = None)"
proof -
  have "fst ret = None" if "sarg_loop accept' ks' (length ks') (sarg_init ks' tot') = Inl ret"
    using sarg_loop_Inl [of accept' ks' "length ks'" "sarg_init ks' tot'" "fst ret" "snd ret"] that
    by simp
  then show ?thesis
    by (auto simp: SargFor_def FULL_SPANS_def split: sum.splits prod.splits dest: sarg_loop_Inl)
qed

theorem C1_SargFor_at_most_256_witness:
  "sarg_loop wide_visitor [0] (length [0::nat]) (sarg_init [0] 1)
      = Inr (False, Some (replicate 300 (Obj FULL_SPAN))) \<and>
   256 < len (Some (replicate 300 (Obj (FULL_SPAN :: nat Span)))) \<and>
   SargFor wide_visitor [0] 1 = (Some [FULL_SPANS_0], None) \<and>
   len (fst (SargFor wide_visitor [0] 1)) \<le> 256 \<and>
   sarg_loop failing_visitor [0] (length [0::nat]) (sarg_init [0] 1)
      = Inl (None, Some (Errorf ''not sargable'')) \<and>
   SargFor failing_visitor [0] 1 = (None, Some (Errorf ''not sargable''))"
proof -
  have run: "sarg_loop wide_visitor [0] (length [0::nat]) (sarg_init [0] 1)
      = Inr (False, Some (replicate 300 (Obj FULL_SPAN)))"
    by (simp add: sarg_key_def sarg_init_def wide_visitor_def)
  have stop: "sarg_loop failing_visitor [0] (length [0::nat]) (sarg_init [0] 1)
      = Inl (None, Some (Errorf ''not sargable''))"
    by (simp add: sarg_key_def sarg_init_def failing_visitor_def)
  show ?thesis
    using run stop
      C1_SargFor_at_most_256 [of wide_visitor "[0]" 1 False "Some (replicate 300 (Obj FULL_SPAN))"
        failing_visitor "[0]" 1 "(None, Some (Errorf ''not sargable''))"]
    by simp
qed

text \<open>
  C2, as stated, fails. On the index \<^verbatim>\<open>(k0, k1, k2)\<close> with \<open>range_visitor\<close>, the key at
  index 2 leaves one composite, \<open>hi_only\<close>, which carries no low. The key at index 1
  then yields the spans \<open>lo_only\<close> and \<open>hi_only\<close>; the first has no high bound, so
  the flag handed to the key at index 0 is true, although not every composite so far
  carries a low (nor does every span of the current key).
\<close>

theorem C2_flag_ignores_lows_counterexample:
  "sarg_key range_visitor 2 2 (sarg_init [0, 1, 2] 3) = Inr (False, Some [Obj hi_only]) \<and>
   range_visitor False 1 = (Some [Obj lo_only, Obj hi_only], None) \<and>
   sarg_key range_visitor 1 1 (False, Some [Obj hi_only]) =
     Inr (True, Some [Obj lo_only,
                      Obj \<lparr>Range = \<lparr>Low = [], High = [9, 9], Inclusion = 0\<rparr>\<rparr>]) \<and>
   \<not> (list_all carries_low [Obj hi_only] \<and> list_ex missing_high [Obj lo_only, Obj hi_only]) \<and>
   \<not> list_all carries_low [Obj lo_only, Obj hi_only]"
  by (simp add: sarg_key_def sarg_init_def range_visitor_def missing_high_def carries_low_def
      is_full_ptr_def unbounded_def cross_prev_def compose_def hi_only_def lo_only_def
      NEITHER_def LOW_def HIGH_def)

text \<open>
  C2, amended. Before the first key the flag is true exactly when the number of sarg keys
  is below the total. When the visitor returns spans \<open>rs\<close> and no error for the key at
  index \<open>i\<close>, the flag handed to the next key to the left is: for \<open>i > 0\<close> and
  non-empty \<open>rs\<close>, true if and only if some span of \<open>rs\<close> has no high bound, whatever
  lows the composites \<open>ns\<close> carry; otherwise the flag it had.
\<close>

theorem C2_missing_high_flag:
  "fst (sarg_init ks tot) = (int (length ks) < tot) \<and>
   (accept mh key = (Some rs, None) \<longrightarrow>
      (\<exists>ns'. sarg_key accept key i (mh, ns) =
         Inr (if 0 < i \<and> rs \<noteq> [] then (\<exists>prev \<in> set rs. High (Range (deref prev)) = []) else mh, ns')))"
  by (auto simp: sarg_init_def sarg_key_def Let_def list_ex_iff missing_high_def split: option.splits)

theorem C2_missing_high_flag_witness:
  "range_visitor False 1 = (Some [Obj lo_only, Obj hi_only], None) \<and>
   (\<exists>ns'. sarg_key range_visitor 1 1 (False, Some [Obj hi_only]) = Inr (True, ns')) \<and>
   \<not> fst (sarg_init [0, 1, 2 :: int] 3)"
proof -
  have v: "range_visitor False 1 = (Some [Obj lo_only, Obj hi_only], None)"
    by (simp add: range_visitor_def)
  show ?thesis
    using v C2_missing_high_flag [of "[0, 1, 2 :: int]" 3 range_visitor False 1 "[Obj lo_only, Obj hi_only]"
        1 "Some [Obj hi_only]"]
    by (simp add: lo_only_def)
qed

subsection \<open>constrainSpan\<close>

text \<open>
  Whenever both spans carry a high bound and the high of \<open>span2\<close> has a static value,
  the high of \<open>span1\<close> stays, whatever \<open>Collate\<close> says: the test asks for
  \<^verbatim>\<open>high2 == nil\<close> and a comparison at once.
\<close>

lemma constrainSpan_high_kept:
  "High (Range span1) \<noteq> [] \<Longrightarrow> Value (High (Range span2) ! 0) \<noteq> None \<Longrightarrow>
   High (Range (constrainSpan Value Collate span1 span2)) = High (Range span1)"
  by (auto simp: constrainSpan_def Let_def split: option.splits)

text \<open>
  C3. constrainSpan is to tighten both bounds alike: the higher of two lows wins, and
  so should the lower of two highs. The code does the former and not the latter:
  constraining \<open>k \<ge> 1\<close> by \<open>k \<ge> 3\<close> gives \<open>k \<ge> 3\<close>, while constraining
  \<open>k \<le> 10\<close> by \<open>k \<le> 5\<close> leaves \<open>k \<le> 10\<close>.
\<close>

theorem C3_constrainSpan_high_not_tightened:
  "int_collate 10 (Some 5) > 0 \<and>
   constrainSpan Some int_collate le10 le5 = le10 \<and>
   High (Range (constrainSpan Some int_collate le10 le5)) = [10] \<and>
   int_collate 1 (Some 3) < 0 \<and>
   constrainSpan Some int_collate ge1 ge3 = ge3"
  by (simp add: constrainSpan_def int_collate_def le10_def le5_def ge1_def ge3_def
      LOW_def HIGH_def)

subsection \<open>buildPrimaryIndex\<close>

lemma first_primary_not_nil_nil:
  "first_primary None indexes = Some (a, b) \<Longrightarrow> a \<noteq> None \<or> b \<noteq> None"
  by (induction indexes) (auto split: if_splits)

lemma online_primary_not_nil_nil:
  "online_primary None primaries p = Inl (a, b) \<Longrightarrow> a \<noteq> None \<or> b \<noteq> None"
  by (induction primaries arbitrary: p) (auto split: prod.splits option.splits if_splits)

lemma online_primary_of_indexers_not_nil_nil:
  "online_primary_of_indexers None indexers p = Inl (a, b) \<Longrightarrow> a \<noteq> None \<or> b \<noteq> None"
proof (induction indexers arbitrary: p)
  case Nil
  then show ?case by simp
next
  case (Cons indexer indexers)
  then show ?case
    by (auto split: prod.splits option.splits sum.splits dest: online_primary_not_nil_nil)
qed

text \<open>
  When \<^verbatim>\<open>keyspace.Indexers()\<close> succeeds, buildPrimaryIndex returns an index or an error.
\<close>

lemma buildPrimaryIndex_not_nil_nil:
  assumes "snd (Indexers keyspace) = None"
  shows "buildPrimaryIndex keyspace hintIndexes otherIndexes \<noteq> (None, None)"
proof
  assume nn: "buildPrimaryIndex keyspace hintIndexes otherIndexes = (None, None)"
  obtain indexers where ix: "Indexers keyspace = (indexers, None)"
    using assms by (cases "Indexers keyspace") auto
  show False
  proof (cases "first_primary None hintIndexes")
    case (Some r)
    then show False
      using nn first_primary_not_nil_nil [of hintIndexes "fst r" "snd r"]
      by (auto simp: buildPrimaryIndex_def)
  next
    case None
    note h = None
    show False
    proof (cases "first_primary None otherIndexes")
      case (Some r)
      then show False
        using nn h first_primary_not_nil_nil [of otherIndexes "fst r" "snd r"]
        by (auto simp: buildPrimaryIndex_def)
    next
      case None
      show False
      proof (cases "online_primary_of_indexers None indexers None")
        case (Inl r)
        then show False
          using nn h None ix online_primary_of_indexers_not_nil_nil [of indexers None "fst r" "snd r"]
          by (auto simp: buildPrimaryIndex_def)
      next
        case (Inr q)
        then show False
          using nn h None ix
          by (cases q) (auto simp: buildPrimaryIndex_def)
      qed
    qed
  qed
qed

text \<open>
  C7. A failed catalog call is to end buildPrimaryIndex with an error. With no hint, no
  other candidate and a keyspace whose \<^verbatim>\<open>Indexers()\<close> call fails, the code returns a nil
  index together with a nil error, and buildPrimaryScan goes on to build a PrimaryScan
  over the nil index.
\<close>

theorem C7_buildPrimaryIndex_nil_nil:
  "snd (Indexers broken_keyspace) = Some catalog_down \<and>
   buildPrimaryIndex broken_keyspace [] [] = (None, None) \<and>
   buildPrimaryScan broken_keyspace term_k None [] [] =
     Ok (PrimaryScan None broken_keyspace term_k None)"
  by (simp add: buildPrimaryScan_def buildPrimaryIndex_def broken_keyspace_def)

subsection \<open>minimalIndexes\<close>

lemma narrowerOrEquivalent_iff:
  "narrowerOrEquivalent S se te \<longleftrightarrow>
     length (sargKeys te) \<le> length (sargKeys se) \<and>
     (\<forall>tc. cond te = Some tc \<longrightarrow> (\<exists>sc. cond se = Some sc \<and> S sc tc)) \<and>
     (\<forall>tk \<in> set (sargKeys te). \<exists>sk \<in> set (sargKeys se). S sk tk) \<and>
     (length (sargKeys te) < length (sargKeys se) \<or> length (keys se) \<le> length (keys te))"
  by (auto simp: narrowerOrEquivalent_def list_all_iff list_ex_iff split: option.splits)

lemma prune_inner_le: "prune_inner S s se ts m \<subseteq>\<^sub>m m"
proof (induction ts arbitrary: m)
  case Nil
  then show ?case by simp
next
  case (Cons t ts)
  show ?case
  proof (cases "m t")
    case None
    then show ?thesis using Cons.IH [of m] by simp
  next
    case (Some te)
    show ?thesis
    proof (cases "t \<noteq> s \<and> narrowerOrEquivalent S se te")
      case True
      have del: "m(t := None) \<subseteq>\<^sub>m m"
        by (simp add: map_le_def)
      have eq: "prune_inner S s se (t # ts) m = prune_inner S s se ts (m(t := None))"
        using Some True by simp
      show ?thesis
        unfolding eq by (rule map_le_trans [OF Cons.IH del])
    next
      case False
      then have eq: "prune_inner S s se (t # ts) m = prune_inner S s se ts m"
        using Some by auto
      show ?thesis
        unfolding eq by (rule Cons.IH)
    qed
  qed
qed

lemma prune_inner_dropped:
  "m t = Some te \<Longrightarrow> prune_inner S s se ts m t = None \<Longrightarrow>
   t \<noteq> s \<and> t \<in> set ts \<and> narrowerOrEquivalent S se te"
proof (induction ts arbitrary: m)
  case Nil
  then show ?case by simp
next
  case (Cons u us)
  show ?case
  proof (cases "m u")
    case None
    then have "prune_inner S s se us m t = None" using Cons.prems(2) by simp
    then show ?thesis using Cons.IH [of m] Cons.prems(1) by simp
  next
    case (Some ue)
    show ?thesis
    proof (cases "u \<noteq> s \<and> narrowerOrEquivalent S se ue")
      case True
      note drop = True
      have eq: "prune_inner S s se (u # us) m = prune_inner S s se us (m(u := None))"
        using Some True by simp
      show ?thesis
      proof (cases "t = u")
        case True
        then have "ue = te" using Cons.prems(1) Some by simp
        then show ?thesis using True drop by simp
      next
        case False
        then have a: "(m(u := None)) t = Some te" using Cons.prems(1) by simp
        have b: "prune_inner S s se us (m(u := None)) t = None"
          using Cons.prems(2) eq by simp
        show ?thesis using Cons.IH [of "m(u := None)", OF a b] by simp
      qed
    next
      case False
      then have eq: "prune_inner S s se (u # us) m = prune_inner S s se us m"
        using Some by auto
      then have "prune_inner S s se us m t = None" using Cons.prems(2) by simp
      then show ?thesis using Cons.IH [of m] Cons.prems(1) by simp
    qed
  qed
qed

lemma prune_inner_kept:
  "prune_inner S s se ts m t = Some te \<Longrightarrow> t \<in> set ts \<Longrightarrow> t \<noteq> s \<Longrightarrow>
   \<not> narrowerOrEquivalent S se te"
proof (induction ts arbitrary: m)
  case Nil
  then show ?case by simp
next
  case (Cons u us)
  have le: "prune_inner S s se (u # us) m \<subseteq>\<^sub>m m" by (rule prune_inner_le)
  then have mt: "m t = Some te"
    using Cons.prems(1) by (auto simp: map_le_def dom_def)
  show ?case
  proof (cases "t = u")
    case True
    show ?thesis
    proof
      assume n: "narrowerOrEquivalent S se te"
      then have "prune_inner S s se (u # us) m = prune_inner S s se us (m(u := None))"
        using mt True Cons.prems(3) by simp
      moreover have "prune_inner S s se us (m(u := None)) \<subseteq>\<^sub>m m(u := None)"
        by (rule prune_inner_le)
      ultimately have "prune_inner S s se (u # us) m t = None"
        using True by (auto simp: map_le_def dom_def)
      then show False using Cons.prems(1) by simp
    qed
  next
    case False
    then have tin: "t \<in> set us" using Cons.prems(2) by simp
    show ?thesis
    proof (cases "m u")
      case None
      then show ?thesis using Cons.IH [of m] Cons.prems tin by simp
    next
      case (Some ue)
      show ?thesis
      proof (cases "u \<noteq> s \<and> narrowerOrEquivalent S se ue")
        case True
        then have "prune_inner S s se (u # us) m = prune_inner S s se us (m(u := None))"
          using Some by simp
        then have "prune_inner S s se us (m(u := None)) t = Some te"
          using Cons.prems(1) by simp
        then show ?thesis
          by (rule Cons.IH [of "m(u := None)", OF _ tin Cons.prems(3)])
      next
        case False
        then have "prune_inner S s se (u # us) m = prune_inner S s se us m"
          using Some by auto
        then have "prune_inner S s se us m t = Some te"
          using Cons.prems(1) by simp
        then show ?thesis
          by (rule Cons.IH [of m, OF _ tin Cons.prems(3)])
      qed
    qed
  qed
qed

lemma prune_le: "prune S inner ss m \<subseteq>\<^sub>m m"
proof (induction ss arbitrary: m)
  case Nil
  then show ?case by simp
next
  case (Cons s ss)
  show ?case
  proof (cases "m s")
    case None
    then show ?thesis using Cons.IH [of m] by simp
  next
    case (Some se)
    then show ?thesis
      using map_le_trans [OF Cons.IH [of "prune_inner S s se (inner s) m"] prune_inner_le [of S s se "inner s" m]]
      by simp
  qed
qed

lemma prune_dropped:
  "m t = Some te \<Longrightarrow> prune S inner ss m t = None \<Longrightarrow>
   \<exists>s se. s \<in> set ss \<and> s \<noteq> t \<and> m s = Some se \<and> t \<in> set (inner s) \<and> narrowerOrEquivalent S se te"
proof (induction ss arbitrary: m)
  case Nil
  then show ?case by simp
next
  case (Cons s ss)
  show ?case
  proof (cases "m s")
    case None
    then show ?thesis using Cons.IH [of m] Cons.prems by auto
  next
    case (Some se)
    let ?m1 = "prune_inner S s se (inner s) m"
    have fin: "prune S inner ss ?m1 t = None" using Cons.prems Some by simp
    show ?thesis
    proof (cases "?m1 t")
      case None
      then show ?thesis
        using prune_inner_dropped [OF Cons.prems(1) None] Some by auto
    next
      case (Some te')
      have le: "?m1 \<subseteq>\<^sub>m m" by (rule prune_inner_le)
      have "te' = te" using Some le Cons.prems(1) by (auto simp: map_le_def dom_def)
      then obtain s' se' where w: "s' \<in> set ss" "s' \<noteq> t" "?m1 s' = Some se'" "t \<in> set (inner s')"
          "narrowerOrEquivalent S se' te"
        using Cons.IH [of ?m1] Some fin by auto
      have "m s' = Some se'" using w(3) le by (auto simp: map_le_def dom_def)
      then show ?thesis using w by auto
    qed
  qed
qed

lemma prune_kept:
  "prune S inner ss m s = Some se \<Longrightarrow> prune S inner ss m t = Some te \<Longrightarrow>
   s \<in> set ss \<Longrightarrow> t \<in> set (inner s) \<Longrightarrow> s \<noteq> t \<Longrightarrow> \<not> narrowerOrEquivalent S se te"
proof (induction ss arbitrary: m)
  case Nil
  then show ?case by simp
next
  case (Cons u us)
  show ?case
  proof (cases "m u")
    case None
    have "s \<noteq> u"
    proof
      assume "s = u"
      then have "m s = None" using None by simp
      moreover have "prune S inner (u # us) m \<subseteq>\<^sub>m m" by (rule prune_le)
      ultimately show False using Cons.prems(1) by (auto simp: map_le_def dom_def)
    qed
    then show ?thesis using Cons.IH [of m] Cons.prems None by simp
  next
    case (Some ue)
    let ?m1 = "prune_inner S u ue (inner u) m"
    have eq: "prune S inner (u # us) m = prune S inner us ?m1" using Some by simp
    have le2: "prune S inner us ?m1 \<subseteq>\<^sub>m ?m1" by (rule prune_le)
    have le1: "?m1 \<subseteq>\<^sub>m m" by (rule prune_inner_le)
    show ?thesis
    proof (cases "s = u")
      case True
      have "?m1 s = Some se" using Cons.prems(1) eq le2 by (auto simp: map_le_def dom_def)
      then have "m s = Some se" using le1 by (auto simp: map_le_def dom_def)
      then have "ue = se" using Some True by simp
      have "?m1 t = Some te" using Cons.prems(2) eq le2 by (auto simp: map_le_def dom_def)
      then show ?thesis
        using prune_inner_kept [of S u ue "inner u" m t te] True \<open>ue = se\<close> Cons.prems(4,5) by auto
    next
      case False
      then show ?thesis using Cons.IH [of ?m1] Cons.prems eq by simp
    qed
  qed
qed


text \<open>
  C4. narrowerOrEquivalent(s, t) holds exactly when s has at least as many sarg keys as
  t; t has no condition, or s has one with SubsetOf(s.cond, t.cond); for every sarg key
  of t some sarg key of s is a SubsetOf-subset of it; and s has more sarg keys than t
  or, failing that, no more keys in total. When the pruning loop visits the pair
  \<open>(s, t)\<close> with \<open>t\<close> still a candidate, it deletes \<open>t\<close> exactly when \<open>t \<noteq> s\<close>
  and narrowerOrEquivalent(s, t). Over the whole loop, whatever the orders of the visits:
  only candidates are removed, never changed; a removed \<open>t\<close> had some other candidate
  \<open>s'\<close> with narrowerOrEquivalent(s', t); and of two candidates that both remain,
  neither is narrowerOrEquivalent to the other.
\<close>

theorem C4_minimality_pruning:
  "(narrowerOrEquivalent S se te \<longleftrightarrow>
      length (sargKeys te) \<le> length (sargKeys se) \<and>
      (\<forall>tc. cond te = Some tc \<longrightarrow> (\<exists>sc. cond se = Some sc \<and> S sc tc)) \<and>
      (\<forall>tk \<in> set (sargKeys te). \<exists>sk \<in> set (sargKeys se). S sk tk) \<and>
      (length (sargKeys te) < length (sargKeys se) \<or> length (keys se) \<le> length (keys te))) \<and>
   (m t = Some te \<longrightarrow>
      prune_inner S s se [t] m = (if t \<noteq> s \<and> narrowerOrEquivalent S se te then m(t := None) else m)) \<and>
   prune S inner outer m \<subseteq>\<^sub>m m \<and>
   (m t = Some te \<and> prune S inner outer m t = None \<longrightarrow>
      (\<exists>s' se'. s' \<noteq> t \<and> m s' = Some se' \<and> narrowerOrEquivalent S se' te)) \<and>
   (dom m2 \<subseteq> set outer2 \<and> (\<forall>k. dom m2 \<subseteq> set (inner2 k)) \<and>
    prune S inner2 outer2 m2 s2 = Some se2 \<and> prune S inner2 outer2 m2 t2 = Some te2 \<and> s2 \<noteq> t2 \<longrightarrow>
      \<not> narrowerOrEquivalent S se2 te2)"
proof -
  have kept: "\<not> narrowerOrEquivalent S se2 te2"
    if "dom m2 \<subseteq> set outer2" "\<forall>k. dom m2 \<subseteq> set (inner2 k)"
      "prune S inner2 outer2 m2 s2 = Some se2" "prune S inner2 outer2 m2 t2 = Some te2" "s2 \<noteq> t2"
  proof -
    have le: "prune S inner2 outer2 m2 \<subseteq>\<^sub>m m2" by (rule prune_le)
    have "m2 s2 = Some se2" "m2 t2 = Some te2"
      using le that(3,4) by (auto simp: map_le_def dom_def)
    then have "s2 \<in> set outer2" "t2 \<in> set (inner2 s2)"
      using that(1,2) by (auto simp: dom_def)
    then show ?thesis
      using prune_kept [OF that(3,4)] that(5) by simp
  qed
  have dropped: "\<exists>s' se'. s' \<noteq> t \<and> m s' = Some se' \<and> narrowerOrEquivalent S se' te"
    if "m t = Some te" "prune S inner outer m t = None"
    using prune_dropped [OF that] by blast
  have pair: "prune_inner S s se [t] m =
      (if t \<noteq> s \<and> narrowerOrEquivalent S se te then m(t := None) else m)"
    if "m t = Some te"
    using that by simp
  show ?thesis
  proof (intro conjI impI)
    show "narrowerOrEquivalent S se te \<longleftrightarrow>
      length (sargKeys te) \<le> length (sargKeys se) \<and>
      (\<forall>tc. cond te = Some tc \<longrightarrow> (\<exists>sc. cond se = Some sc \<and> S sc tc)) \<and>
      (\<forall>tk \<in> set (sargKeys te). \<exists>sk \<in> set (sargKeys se). S sk tk) \<and>
      (length (sargKeys te) < length (sargKeys se) \<or> length (keys se) \<le> length (keys te))"
      by (rule narrowerOrEquivalent_iff)
  next
    assume "m t = Some te"
    then show "prune_inner S s se [t] m =
      (if t \<noteq> s \<and> narrowerOrEquivalent S se te then m(t := None) else m)"
      by (rule pair)
  next
    show "prune S inner outer m \<subseteq>\<^sub>m m" by (rule prune_le)
  next
    assume "m t = Some te \<and> prune S inner outer m t = None"
    then show "\<exists>s' se'. s' \<noteq> t \<and> m s' = Some se' \<and> narrowerOrEquivalent S se' te"
      using dropped by blast
  next
    assume "dom m2 \<subseteq> set outer2 \<and> (\<forall>k. dom m2 \<subseteq> set (inner2 k)) \<and>
      prune S inner2 outer2 m2 s2 = Some se2 \<and> prune S inner2 outer2 m2 t2 = Some te2 \<and> s2 \<noteq> t2"
    then show "\<not> narrowerOrEquivalent S se2 te2"
      using kept by blast
  qed
qed

lemma narrow_facts:
  "narrowerOrEquivalent (=) wide narrow" "\<not> narrowerOrEquivalent (=) narrow wide"
  by (simp_all add: narrowerOrEquivalent_def wide_def narrow_def)

lemma prune_two: "prune (=) (\<lambda>k. any_order) any_order two_candidates = [''by_a_b'' \<mapsto> wide]"
  using narrow_facts
  by (auto simp: two_candidates_def any_order_def)

lemma apart_facts:
  "\<not> narrowerOrEquivalent (=) by_a_only by_b_only" "\<not> narrowerOrEquivalent (=) by_b_only by_a_only"
  by (simp_all add: narrowerOrEquivalent_def by_a_only_def by_b_only_def)

lemma prune_apart: "prune (=) (\<lambda>k. apart_order) apart_order apart = apart"
  using apart_facts
  by (auto simp: apart_def apart_order_def)

theorem C4_minimality_pruning_witness:
  "two_candidates ''by_a'' = Some narrow \<and>
   prune (=) (\<lambda>k. any_order) any_order two_candidates ''by_a'' = None \<and>
   narrowerOrEquivalent (=) wide narrow \<and>
   length (sargKeys narrow) < length (sargKeys wide) \<and>
   prune_inner (=) ''by_a_b'' wide [''by_a''] two_candidates = two_candidates(''by_a'' := None) \<and>
   (\<exists>s' se'. s' \<noteq> ''by_a'' \<and> two_candidates s' = Some se' \<and> narrowerOrEquivalent (=) se' narrow) \<and>
   dom apart \<subseteq> set apart_order \<and>
   prune (=) (\<lambda>k. apart_order) apart_order apart ''by_a'' = Some by_a_only \<and>
   prune (=) (\<lambda>k. apart_order) apart_order apart ''by_b'' = Some by_b_only \<and>
   \<not> narrowerOrEquivalent (=) by_a_only by_b_only"
proof -
  have a: "two_candidates ''by_a'' = Some narrow"
    by (simp add: two_candidates_def)
  have b: "prune (=) (\<lambda>k. any_order) any_order two_candidates ''by_a'' = None"
    by (simp add: prune_two)
  have c: "narrowerOrEquivalent (=) wide narrow"
    by (rule narrow_facts)
  have d: "dom apart \<subseteq> set apart_order"
    by (auto simp: apart_def apart_order_def)
  have e: "prune (=) (\<lambda>k. apart_order) apart_order apart ''by_a'' = Some by_a_only"
      "prune (=) (\<lambda>k. apart_order) apart_order apart ''by_b'' = Some by_b_only"
    by (simp_all add: prune_apart) (simp_all add: apart_def)
  show ?thesis
    using a b c d e
      C4_minimality_pruning [of "(=)" wide narrow two_candidates "''by_a''" "''by_a_b''"
        "\<lambda>k. any_order" any_order apart apart_order "\<lambda>k. apart_order" "''by_a''" by_a_only
        "''by_b''" by_b_only]
    by (simp add: wide_def narrow_def)
qed

subsection \<open>sargableIndexes\<close>





subsection \<open>buildSecondaryScan\<close>

lemma range_map_total:
  "set order \<subseteq> dom m \<Longrightarrow> range_map m order = map (\<lambda>k. (k, the (m k))) order"
  by (induction order) (auto simp: range_map_def List.map_filter_simps)

lemma index_scan_op_shape:
  "index_scan_op node limit (index, entry) =
     (if 1 < len (spans entry) then UnionScan [IndexScan index node (spans entry) False limit None]
      else IndexScan index node (spans entry) False limit None)"
  by (simp add: index_scan_op_def)

text \<open>
  C6, as stated, fails when the builder has a cover. The only surviving index,
  \<^verbatim>\<open>by_status\<close>, has two spans and covers the expression \<^verbatim>\<open>status\<close>: buildSecondaryScan
  returns the covering IndexScan itself, with no UnionScan around it.
\<close>

theorem C6_covering_scan_counterexample:
  "1 < len (spans status_entry) \<and>
   buildSecondaryScan among [by_status] [by_status] covering_builder [by_status \<mapsto> status_entry] term_k None
     = Ok (covering_builder\<lparr>coveringScan :=
              Some (IndexScan by_status term_k (spans status_entry) False None (Some [''status'']))\<rparr>,
           IndexScan by_status term_k (spans status_entry) False None (Some [''status'']))"
  by (simp add: buildSecondaryScan_def buildCoveringScan_def range_map_def List.map_filter_simps
      covering_builder_def plain_builder_def status_entry_def among_def Let_def)

text \<open>
  The scans built when no covering scan is.
\<close>

lemma buildSecondaryScan_without_cover:
  assumes nocover: "\<forall>exprs. cover this = Some exprs \<longrightarrow>
      covering_entry CB exprs (range_map secondaries corder) = None"
    and visit: "distinct sorder" "set sorder = dom secondaries" "sorder \<noteq> []"
  shows "\<exists>scans.
     buildSecondaryScan CB corder sorder this secondaries node limit =
       Ok (this, if 1 < card (dom secondaries) then IntersectScan scans else scans ! 0) \<and>
     length scans = card (dom secondaries) \<and>
     (\<forall>k < length scans. \<exists>entry. secondaries (sorder ! k) = Some entry \<and>
        scans ! k =
          (if 1 < len (spans entry)
           then UnionScan [IndexScan (sorder ! k) node (spans entry) False limit None]
           else IndexScan (sorder ! k) node (spans entry) False limit None))"
proof -
  let ?es = "map (\<lambda>k. (k, the (secondaries k))) sorder"
  let ?scans = "map (index_scan_op node limit) ?es"
  have rm: "range_map secondaries sorder = ?es"
    using visit(2) by (simp add: range_map_total)
  have card: "card (dom secondaries) = length sorder"
    using visit(1,2) distinct_card [of sorder] by simp
  have nc: "(if cover this \<noteq> None
           then buildCoveringScan CB this (range_map secondaries corder) node limit
           else (this, None)) = (this, None)"
    using nocover by (auto simp: buildCoveringScan_def split: option.splits)
  have len: "length ?scans = length sorder" by simp
  have pos: "0 < length sorder" using visit(3) by simp
  have run: "buildSecondaryScan CB corder sorder this secondaries node limit =
       Ok (this, if 1 < length sorder then IntersectScan ?scans else ?scans ! 0)"
    unfolding buildSecondaryScan_def nc rm using pos by (simp add: Let_def)
  have each: "\<exists>entry. secondaries (sorder ! k) = Some entry \<and>
        ?scans ! k =
          (if 1 < len (spans entry)
           then UnionScan [IndexScan (sorder ! k) node (spans entry) False limit None]
           else IndexScan (sorder ! k) node (spans entry) False limit None)"
    if "k < length ?scans" for k
  proof -
    have k: "k < length sorder" using that by simp
    then have "sorder ! k \<in> dom secondaries" using visit(2) nth_mem by blast
    then obtain entry where e: "secondaries (sorder ! k) = Some entry" by auto
    have "?scans ! k = index_scan_op node limit (sorder ! k, entry)"
      using k e by simp
    then show ?thesis using e by (simp add: index_scan_op_shape)
  qed
  show ?thesis
    using run each len card by (intro exI [of _ ?scans]) simp
qed

text \<open>
  The covering path: what the search of buildCoveringScan finds, and what is returned
  then.
\<close>

lemma covering_entry_Some:
  "covering_entry CB exprs es = Some (index, entry) \<Longrightarrow>
   (index, entry) \<in> set es \<and> list_all (\<lambda>expr. CB expr (keys entry)) exprs"
  by (induction CB exprs es rule: covering_entry.induct) (auto split: if_splits)

lemma covering_entry_None:
  "covering_entry CB exprs es = None \<longleftrightarrow>
   (\<forall>ie \<in> set es. \<not> list_all (\<lambda>expr. CB expr (keys (snd ie))) exprs)"
  by (induction CB exprs es rule: covering_entry.induct) auto

lemma range_map_mem:
  "(k, v) \<in> set (range_map m order) \<longleftrightarrow> k \<in> set order \<and> m k = Some v"
  by (induction order) (auto simp: range_map_def List.map_filter_simps split: option.splits)

lemma buildSecondaryScan_with_cover:
  assumes "cover this = Some exprs"
    and "covering_entry CB exprs (range_map secondaries corder) = Some (index, entry)"
  shows "buildSecondaryScan CB corder sorder this secondaries node limit =
      Ok (this\<lparr>coveringScan := Some (IndexScan index node (spans entry) False limit (Some (keys entry)))\<rparr>,
          IndexScan index node (spans entry) False limit (Some (keys entry))) \<and>
    index \<in> set corder \<and> secondaries index = Some entry \<and>
    (\<forall>expr \<in> set exprs. CB expr (keys entry))"
proof -
  have "(index, entry) \<in> set (range_map secondaries corder)"
      "list_all (\<lambda>expr. CB expr (keys entry)) exprs"
    using covering_entry_Some [OF assms(2)] by simp_all
  then have "index \<in> set corder" "secondaries index = Some entry"
      "\<forall>expr \<in> set exprs. CB expr (keys entry)"
    by (simp_all add: range_map_mem list_all_iff)
  moreover have "buildSecondaryScan CB corder sorder this secondaries node limit =
      Ok (this\<lparr>coveringScan := Some (IndexScan index node (spans entry) False limit (Some (keys entry)))\<rparr>,
          IndexScan index node (spans entry) False limit (Some (keys entry)))"
    using assms by (simp add: buildSecondaryScan_def buildCoveringScan_def Let_def)
  ultimately show ?thesis by simp
qed

lemma covering_entry_None_visit:
  "covering_entry CB exprs (range_map m order) = None \<longleftrightarrow>
   (\<forall>k \<in> set order. \<forall>e. m k = Some e \<longrightarrow> \<not> (\<forall>expr \<in> set exprs. CB expr (keys e)))"
proof
  assume n: "covering_entry CB exprs (range_map m order) = None"
  show "\<forall>k \<in> set order. \<forall>e. m k = Some e \<longrightarrow> \<not> (\<forall>expr \<in> set exprs. CB expr (keys e))"
  proof (intro ballI allI impI)
    fix k e
    assume "k \<in> set order" "m k = Some e"
    then have "(k, e) \<in> set (range_map m order)" by (simp add: range_map_mem)
    then have "\<not> list_all (\<lambda>expr. CB expr (keys (snd (k, e)))) exprs"
      using n unfolding covering_entry_None by blast
    then show "\<not> (\<forall>expr \<in> set exprs. CB expr (keys e))" by (simp add: list_all_iff)
  qed
next
  assume a: "\<forall>k \<in> set order. \<forall>e. m k = Some e \<longrightarrow> \<not> (\<forall>expr \<in> set exprs. CB expr (keys e))"
  have "\<not> list_all (\<lambda>expr. CB expr (keys (snd ie))) exprs" if "ie \<in> set (range_map m order)" for ie
  proof -
    have "(fst ie, snd ie) \<in> set (range_map m order)" using that by simp
    then have "fst ie \<in> set order" "m (fst ie) = Some (snd ie)"
      unfolding range_map_mem by simp_all
    then show ?thesis using a by (auto simp: list_all_iff)
  qed
  then show "covering_entry CB exprs (range_map m order) = None"
    unfolding covering_entry_None by blast
qed

lemma by_status_neq_by_age: "by_status \<noteq> by_age"
  by (simp add: by_status_def by_age_def)

lemma status_and_age_nocover:
  "covering_entry among [''zip''] (range_map status_and_age [by_age, by_status]) = None"
  using by_status_neq_by_age
  by (simp add: range_map_def List.map_filter_simps status_and_age_def among_def
      status_entry_def age_entry_def)


text \<open>
  C6, amended. No index of a visit covers the cover expressions exactly when the search
  of buildCoveringScan finds none. Suppose that no covering scan is built: the builder
  has no cover, or no surviving index covers all its expressions. Let the visit of the
  non-empty map of surviving indexes yield each index once. Then buildSecondaryScan
  returns, with the builder unchanged, one scan per surviving index, in the order of the
  visit: the IndexScan of the index wrapped in a UnionScan if its entry has more than
  one span, and the bare IndexScan otherwise; these scans are wrapped in an
  IntersectScan if more than one index survived, and otherwise the single scan is
  returned as it is. When the builder has a cover and the search finds a surviving index
  whose keys cover every expression of it, buildSecondaryScan returns that index's
  IndexScan alone, with the index's keys as covers and whatever its number of spans, and
  records it in the builder.
\<close>

theorem C6_buildSecondaryScan_shape:
  "(covering_entry CB exprs (range_map secondaries corder) = None \<longleftrightarrow>
      (\<forall>k \<in> set corder. \<forall>e. secondaries k = Some e \<longrightarrow>
         \<not> (\<forall>expr \<in> set exprs. CB expr (keys e)))) \<and>
   ((\<forall>exprs. cover this = Some exprs \<longrightarrow>
        covering_entry CB exprs (range_map secondaries corder) = None) \<and>
    distinct sorder \<and> set sorder = dom secondaries \<and> sorder \<noteq> [] \<longrightarrow>
    (\<exists>scans.
       buildSecondaryScan CB corder sorder this secondaries node limit =
         Ok (this, if 1 < card (dom secondaries) then IntersectScan scans else scans ! 0) \<and>
       length scans = card (dom secondaries) \<and>
       (\<forall>k < length scans. \<exists>entry. secondaries (sorder ! k) = Some entry \<and>
          scans ! k =
            (if 1 < len (spans entry)
             then UnionScan [IndexScan (sorder ! k) node (spans entry) False limit None]
             else IndexScan (sorder ! k) node (spans entry) False limit None)))) \<and>
   (cover this' = Some exprs' \<and>
    covering_entry CB exprs' (range_map secondaries' corder') = Some (index, entry') \<longrightarrow>
      buildSecondaryScan CB corder' sorder' this' secondaries' node limit =
        Ok (this'\<lparr>coveringScan :=
               Some (IndexScan index node (spans entry') False limit (Some (keys entry')))\<rparr>,
            IndexScan index node (spans entry') False limit (Some (keys entry'))) \<and>
      index \<in> set corder' \<and> secondaries' index = Some entry' \<and>
      (\<forall>expr \<in> set exprs'. CB expr (keys entry')))"
proof -
  have visit_none: "covering_entry CB exprs (range_map secondaries corder) = None \<longleftrightarrow>
      (\<forall>k \<in> set corder. \<forall>e. secondaries k = Some e \<longrightarrow>
         \<not> (\<forall>expr \<in> set exprs. CB expr (keys e)))"
    by (rule covering_entry_None_visit)
  have plain: "(\<forall>exprs. cover this = Some exprs \<longrightarrow>
        covering_entry CB exprs (range_map secondaries corder) = None) \<and>
    distinct sorder \<and> set sorder = dom secondaries \<and> sorder \<noteq> [] \<longrightarrow>
    (\<exists>scans.
       buildSecondaryScan CB corder sorder this secondaries node limit =
         Ok (this, if 1 < card (dom secondaries) then IntersectScan scans else scans ! 0) \<and>
       length scans = card (dom secondaries) \<and>
       (\<forall>k < length scans. \<exists>entry. secondaries (sorder ! k) = Some entry \<and>
          scans ! k =
            (if 1 < len (spans entry)
             then UnionScan [IndexScan (sorder ! k) node (spans entry) False limit None]
             else IndexScan (sorder ! k) node (spans entry) False limit None)))"
  proof
    assume a: "(\<forall>exprs. cover this = Some exprs \<longrightarrow>
        covering_entry CB exprs (range_map secondaries corder) = None) \<and>
      distinct sorder \<and> set sorder = dom secondaries \<and> sorder \<noteq> []"
    then have nocover: "\<forall>exprs. cover this = Some exprs \<longrightarrow>
        covering_entry CB exprs (range_map secondaries corder) = None"
      and visit: "distinct sorder" "set sorder = dom secondaries" "sorder \<noteq> []"
      by simp_all
    show "\<exists>scans.
       buildSecondaryScan CB corder sorder this secondaries node limit =
         Ok (this, if 1 < card (dom secondaries) then IntersectScan scans else scans ! 0) \<and>
       length scans = card (dom secondaries) \<and>
       (\<forall>k < length scans. \<exists>entry. secondaries (sorder ! k) = Some entry \<and>
          scans ! k =
            (if 1 < len (spans entry)
             then UnionScan [IndexScan (sorder ! k) node (spans entry) False limit None]
             else IndexScan (sorder ! k) node (spans entry) False limit None))"
      by (rule buildSecondaryScan_without_cover [OF nocover visit])
  qed
  have covered: "cover this' = Some exprs' \<and>
    covering_entry CB exprs' (range_map secondaries' corder') = Some (index, entry') \<longrightarrow>
      buildSecondaryScan CB corder' sorder' this' secondaries' node limit =
        Ok (this'\<lparr>coveringScan :=
               Some (IndexScan index node (spans entry') False limit (Some (keys entry')))\<rparr>,
            IndexScan index node (spans entry') False limit (Some (keys entry'))) \<and>
      index \<in> set corder' \<and> secondaries' index = Some entry' \<and>
      (\<forall>expr \<in> set exprs'. CB expr (keys entry'))"
  proof
    assume b: "cover this' = Some exprs' \<and>
      covering_entry CB exprs' (range_map secondaries' corder') = Some (index, entry')"
    then have b1: "cover this' = Some exprs'"
      and b2: "covering_entry CB exprs' (range_map secondaries' corder') = Some (index, entry')"
      by simp_all
    show "buildSecondaryScan CB corder' sorder' this' secondaries' node limit =
        Ok (this'\<lparr>coveringScan :=
               Some (IndexScan index node (spans entry') False limit (Some (keys entry')))\<rparr>,
            IndexScan index node (spans entry') False limit (Some (keys entry'))) \<and>
      index \<in> set corder' \<and> secondaries' index = Some entry' \<and>
      (\<forall>expr \<in> set exprs'. CB expr (keys entry'))"
      by (rule buildSecondaryScan_with_cover [OF b1 b2])
  qed
  show ?thesis
    by (rule conjI [OF visit_none conjI [OF plain covered]])
qed

lemma run_status_and_age:
  "buildSecondaryScan among [by_age, by_status] [by_status, by_age] zip_builder status_and_age term_k None
     = Ok (zip_builder,
           IntersectScan
             [UnionScan [IndexScan by_status term_k (spans status_entry) False None None],
              IndexScan by_age term_k (spans age_entry) False None None])"
  using by_status_neq_by_age status_and_age_nocover
  by (simp add: buildSecondaryScan_def buildCoveringScan_def zip_builder_def plain_builder_def
      index_scan_op_def range_map_def List.map_filter_simps status_and_age_def
      status_entry_def age_entry_def Let_def)

lemma covering_by_status:
  "covering_entry among [''status''] (range_map [by_status \<mapsto> status_entry] [by_status])
     = Some (by_status, status_entry)"
  by (simp add: range_map_def List.map_filter_simps among_def status_entry_def)

theorem C6_buildSecondaryScan_shape_witness:
  "cover zip_builder = Some [''zip''] \<and>
   covering_entry among [''zip''] (range_map status_and_age [by_age, by_status]) = None \<and>
   distinct [by_status, by_age] \<and> set [by_status, by_age] = dom status_and_age \<and>
   card (dom status_and_age) = 2 \<and>
   1 < len (spans status_entry) \<and> len (spans age_entry) = 1 \<and>
   buildSecondaryScan among [by_age, by_status] [by_status, by_age] zip_builder status_and_age term_k None
     = Ok (zip_builder,
           IntersectScan
             [UnionScan [IndexScan by_status term_k (spans status_entry) False None None],
              IndexScan by_age term_k (spans age_entry) False None None]) \<and>
   cover covering_builder = Some [''status''] \<and>
   covering_entry among [''status''] (range_map [by_status \<mapsto> status_entry] [by_status])
     = Some (by_status, status_entry) \<and>
   buildSecondaryScan among [by_status] [by_status] covering_builder [by_status \<mapsto> status_entry] term_k None
     = Ok (covering_builder\<lparr>coveringScan :=
              Some (IndexScan by_status term_k (spans status_entry) False None (Some (keys status_entry)))\<rparr>,
           IndexScan by_status term_k (spans status_entry) False None (Some (keys status_entry)))"
proof -
  have c: "cover zip_builder = Some [''zip'']" "cover covering_builder = Some [''status'']"
    by (simp_all add: zip_builder_def covering_builder_def)
  have v: "distinct [by_status, by_age]" "set [by_status, by_age] = dom status_and_age"
    using by_status_neq_by_age by (auto simp: status_and_age_def)
  have n: "card (dom status_and_age) = 2"
    using v distinct_card [of "[by_status, by_age]"] by simp
  have l: "1 < len (spans status_entry)" "len (spans age_entry) = 1"
    by (simp_all add: status_entry_def age_entry_def)
  show ?thesis
    using c v n l status_and_age_nocover run_status_and_age covering_by_status
      C6_buildSecondaryScan_shape [of among "[''zip'']" status_and_age "[by_age, by_status]"
        zip_builder "[by_status, by_age]" term_k None covering_builder "[''status'']"
        "[by_status \<mapsto> status_entry]" "[by_status]" by_status status_entry "[by_status]"]
    by simp
qed

subsection \<open>selectScan and the caller's predicate\<close>

text \<open>
  The mapper does write to the object it is given; what protects the caller's predicate
  is that this object is the copy.
\<close>

lemma Copy_keeps: "Copy h p = (h', q) \<Longrightarrow> take (length h) h' = h \<and> q = length h \<and> length h < length h'"
  by (auto simp: Copy_def)

lemma Map_in_place_writes:
  "p < length h \<Longrightarrow> Map_in_place leaves h p ! p = leaves (h ! p)"
  by (simp add: Map_in_place_def)

lemma Map_in_place_fresh:
  "take (length h) (Map_in_place leaves (h @ [x]) (length h)) = h"
  by (simp add: Map_in_place_def)

lemma buildSecondaryScan_where:
  "buildSecondaryScan CB co so this m node limit = Ok (this', op) \<Longrightarrow>
   where_clause this' = where_clause this"
  by (auto simp: buildSecondaryScan_def buildCoveringScan_def Let_def
      split: if_splits option.splits prod.splits)

lemma buildScan_where_frame:
  "buildScan_where D V h this node limit indexes pred = (h', this', r) \<Longrightarrow>
   take (length h) h' = h \<and> where_clause this' = where_clause this"
  by (auto simp: buildScan_where_def Copy_def Map_in_place_def Let_def
      split: if_splits sum.splits result.splits prod.splits
      dest: buildSecondaryScan_where)

lemma buildScan_frame:
  "buildScan D V h this keyspace node limit = (h', this', r) \<Longrightarrow>
   take (length h) h' = h \<and> where_clause this' = where_clause this"
  by (auto simp: buildScan_def Let_def
      split: if_splits option.splits result.splits prod.splits
      dest: buildScan_where_frame)

text \<open>
  C9. Whatever selectScan returns (a plan, an error or a panic), every expression object
  that existed before the call holds what it held, the caller's predicate among them,
  and the builder still points to the same predicate object: the DNF mapper is run on
  the copy that buildScan makes, and every later step reads the mapped copy.
\<close>

theorem C9_selectScan_keeps_where:
  "take (length h) (fst (selectScan D V h this keyspace node limit)) = h \<and>
   where_clause (fst (snd (selectScan D V h this keyspace node limit))) = where_clause this"
proof (cases "Keys node")
  case (Some ks)
  then show ?thesis by (simp add: selectScan_def Let_def)
next
  case None
  obtain h' this' r where b: "buildScan D V h (this\<lparr>maxParallelism := 0\<rparr>) keyspace node limit = (h', this', r)"
    by (cases "buildScan D V h (this\<lparr>maxParallelism := 0\<rparr>) keyspace node limit") auto
  have "take (length h) h' = h \<and> where_clause this' = where_clause this"
    using buildScan_frame [OF b] by simp
  then show ?thesis
    using None b by (auto simp: selectScan_def Let_def split: result.splits option.splits prod.splits)
qed

text \<open>
  On the keyspace without indexes the store ends with the untouched predicate and the
  rewritten copy, and the call fails for want of a primary index.
\<close>

lemma selectScan_example:
  "selectScan no_deps no_visits [''name = alice''] plain_builder empty_keyspace term_k None =
     ([''name = alice'', ''rewritten''], plain_builder,
      Fail (Errorf ''No primary index on keyspace k. Use CREATE PRIMARY INDEX to create one.''))"
  by (simp add: selectScan_def buildScan_def buildScan_where_def Copy_def Map_in_place_def
      allIndexes_def sargableIndexes_def minimalIndexes_def range_map_def List.map_filter_simps
      buildPrimaryScan_def buildPrimaryIndex_def
      no_deps_def no_visits_def empty_keyspace_def plain_builder_def term_k_def Let_def)

end
